theory Spec2Isabelle
  imports Complex_Main "HOL-Library.AList" "HOL-Library.Sublist" "HOL-Library.List_Lexorder"
    "HOL-Library.Monad_Syntax"
    "HOL-Library.Multiset"
begin

section \<open>Arista SRT: the telemetry pipeline of arista-srt.py\<close>

text \<open>
  The embedding follows the Python source function by function. Conventions:
  \<^item> a Python \<open>str\<close> is a \<open>string\<close>; the character classes of \<open>re\<close> and \<open>str.strip\<close> are
    modelled on ASCII text (a character above 127 is in none of the classes);
  \<^item> a Python \<open>dict\<close> that the program iterates is an association list in insertion order;
    assigning to a key that is already present keeps the key's position (\<open>AList.update\<close>);
  \<^item> a JSON object received from the switch is read through the keys the program reads,
    each key either absent (\<open>None\<close>) or present with a value of the expected type;
  \<^item> counters are Python integers (\<open>int\<close>); a rate is a JSON number, an integer or a
    double (\<open>py_num\<close>, a double given by its rational value); true division raises
    \<open>OverflowError\<close> where Python does and otherwise gives the exact quotient (the rounding
    of the quotient to a double is not modelled);
  \<^item> every exception the program can raise is a value \<open>Inl e\<close> of a result type; the
    interpreter's limit on the digits \<open>int\<close> converts is a parameter \<open>max_str_digits\<close>.
\<close>

subsection \<open>Exceptions\<close>

datatype py_exn =
    Exception string      \<comment> \<open>\<open>raise Exception(msg)\<close> in \<open>execute_command\<close>\<close>
  | KeyError string       \<comment> \<open>\<open>d[k]\<close> with \<open>k\<close> missing\<close>
  | IndexError            \<comment> \<open>\<open>xs[i]\<close> out of range\<close>
  | ValueError string     \<comment> \<open>\<open>int(s)\<close> for a string of too many digits, with its message\<close>
  | OverflowError string  \<comment> \<open>\<open>n / m\<close> beyond the range of a double, with its message\<close>

type_synonym 'a result = "py_exn + 'a"

text \<open>\<open>str(e)\<close>, as \<open>main\<close> prints it.\<close>

fun str_exn :: "py_exn \<Rightarrow> string" where
  "str_exn (Exception msg) = msg"
| "str_exn (KeyError k) = [CHR 0x27] @ k @ [CHR 0x27]"
| "str_exn IndexError = ''list index out of range''"
| "str_exn (ValueError msg) = msg"
| "str_exn (OverflowError msg) = msg"

text \<open>Sequencing: an exception of the first computation ends the function that runs it.\<close>

definition result_bind :: "'a result \<Rightarrow> ('a \<Rightarrow> 'b result) \<Rightarrow> 'b result" where
  "result_bind m f = (case m of Inl e \<Rightarrow> Inl e | Inr x \<Rightarrow> f x)"

subsection \<open>String helpers\<close>

text \<open>\<open>s.replace("Ethernet", "Eth")\<close>: every non-overlapping occurrence, scanning from the left.\<close>

function replace_Ethernet :: "string \<Rightarrow> string" where
  "replace_Ethernet s =
     (if prefix ''Ethernet'' s then ''Eth'' @ replace_Ethernet (drop 8 s)
      else (case s of [] \<Rightarrow> [] | c # cs \<Rightarrow> c # replace_Ethernet cs))"
  by pat_completeness auto
termination
  by (relation "measure length") (auto simp: prefix_def)

declare replace_Ethernet.simps [simp del]

text \<open>\<open>d.get(k, default)\<close> on a dictionary of integers.\<close>

definition get_int :: "(string \<rightharpoonup> int) \<Rightarrow> string \<Rightarrow> int \<Rightarrow> int" where
  "get_int d k dflt = (case d k of None \<Rightarrow> dflt | Some v \<Rightarrow> v)"

subsection \<open>Counter Normalizer: \<open>get_interface_counters\<close>\<close>

text \<open>
  One entry of \<open>interfaces\<close> in the reply to \<open>show interfaces counters rates\<close>: the three keys
  the program reads with \<open>.get\<close>. A rate is a Python \<open>int\<close> or \<open>float\<close>, as \<open>json\<close> decodes
  the number.
\<close>

datatype py_num = PyInt int | PyFloat rat

record rate_data =
  rd_description :: "string option"
  rd_outBpsRate :: "py_num option"
  rd_inBpsRate :: "py_num option"

text \<open>The dictionary stored per port in \<open>combined_data\<close>.\<close>

record PortCounters =
  description :: string
  outBpsRate :: py_num
  inBpsRate :: py_num
  totalErrors :: int
  inErrors :: int
  outErrors :: int
  frameTooLongs :: int
  frameTooShorts :: int
  fcsErrors :: int
  alignmentErrors :: int
  symbolErrors :: int

text \<open>
  The body of the loop: the record built from one rate entry and the error entry looked up
  for the port (\<open>interfaces_errors.get(port, {})\<close> is the empty dictionary when absent).
  \<open>sum([...])\<close> adds the seven looked-up counters from left to right, starting at 0.
\<close>

definition combine :: "rate_data \<Rightarrow> (string \<rightharpoonup> int) \<Rightarrow> PortCounters" where
  "combine rate error_data =
     (let total_errors = sum_list
        [get_int error_data ''inErrors'' 0,
         get_int error_data ''outErrors'' 0,
         get_int error_data ''frameTooLongs'' 0,
         get_int error_data ''frameTooShorts'' 0,
         get_int error_data ''fcsErrors'' 0,
         get_int error_data ''alignmentErrors'' 0,
         get_int error_data ''symbolErrors'' 0]
      in \<lparr> description = (case rd_description rate of None \<Rightarrow> [] | Some d \<Rightarrow> d),
           outBpsRate = (case rd_outBpsRate rate of None \<Rightarrow> PyInt 0 | Some r \<Rightarrow> r),
           inBpsRate = (case rd_inBpsRate rate of None \<Rightarrow> PyInt 0 | Some r \<Rightarrow> r),
           totalErrors = total_errors,
           inErrors = get_int error_data ''inErrors'' 0,
           outErrors = get_int error_data ''outErrors'' 0,
           frameTooLongs = get_int error_data ''frameTooLongs'' 0,
           frameTooShorts = get_int error_data ''frameTooShorts'' 0,
           fcsErrors = get_int error_data ''fcsErrors'' 0,
           alignmentErrors = get_int error_data ''alignmentErrors'' 0,
           symbolErrors = get_int error_data ''symbolErrors'' 0 \<rparr>)"

definition error_entry :: "(string \<rightharpoonup> (string \<rightharpoonup> int)) \<Rightarrow> string \<Rightarrow> (string \<rightharpoonup> int)" where
  "error_entry interfaces_errors port =
     (case interfaces_errors port of None \<Rightarrow> Map.empty | Some d \<Rightarrow> d)"

definition counters_step ::
  "(string \<rightharpoonup> (string \<rightharpoonup> int)) \<Rightarrow> string \<times> rate_data \<Rightarrow>
   (string \<times> PortCounters) list \<Rightarrow> (string \<times> PortCounters) list" where
  "counters_step interfaces_errors = (\<lambda>(port, rate) combined_data.
     AList.update (replace_Ethernet port)
       (combine rate (error_entry interfaces_errors port)) combined_data)"

text \<open>
  The part of \<open>get_interface_counters\<close> after the two replies have been read: the loop over
  \<open>interfaces_rates.items()\<close>, starting from the empty \<open>combined_data\<close>.
\<close>

definition get_interface_counters_from ::
  "(string \<times> rate_data) list \<Rightarrow> (string \<rightharpoonup> (string \<rightharpoonup> int)) \<Rightarrow> (string \<times> PortCounters) list" where
  "get_interface_counters_from interfaces_rates interfaces_errors =
     fold (counters_step interfaces_errors) interfaces_rates []"


definition errors_all_zero :: "PortCounters \<Rightarrow> bool" where
  "errors_all_zero c \<longleftrightarrow> inErrors c = 0 \<and> outErrors c = 0 \<and> frameTooLongs c = 0
     \<and> frameTooShorts c = 0 \<and> fcsErrors c = 0 \<and> alignmentErrors c = 0 \<and> symbolErrors c = 0"


subsection \<open>Character classes of \<open>re\<close> and \<open>str\<close> (ASCII)\<close>

definition is_space :: "char \<Rightarrow> bool" where
  \<comment> \<open>\<open>\s\<close> and \<open>str.isspace\<close>: tab, LF, VT, FF, CR, FS, GS, RS, US, space\<close>
  "is_space c = (let n = (of_char c :: nat) in (9 \<le> n \<and> n \<le> 13) \<or> (28 \<le> n \<and> n \<le> 32))"

definition is_digit :: "char \<Rightarrow> bool" where
  \<comment> \<open>\<open>\d\<close>\<close>
  "is_digit c = (let n = (of_char c :: nat) in 48 \<le> n \<and> n \<le> 57)"

definition is_word :: "char \<Rightarrow> bool" where
  \<comment> \<open>\<open>\w\<close>: letters, digits, underscore\<close>
  "is_word c = (let n = (of_char c :: nat) in
     (48 \<le> n \<and> n \<le> 57) \<or> (65 \<le> n \<and> n \<le> 90) \<or> (97 \<le> n \<and> n \<le> 122) \<or> n = 95)"

definition is_linebreak :: "char \<Rightarrow> bool" where
  \<comment> \<open>the single-character line boundaries of \<open>str.splitlines\<close>: LF, VT, FF, CR, FS, GS, RS\<close>
  "is_linebreak c = (let n = (of_char c :: nat) in (10 \<le> n \<and> n \<le> 13) \<or> (28 \<le> n \<and> n \<le> 30))"

text \<open>\<open>s.strip()\<close>\<close>

definition strip :: "string \<Rightarrow> string" where
  "strip s = rev (dropWhile is_space (rev (dropWhile is_space s)))"

text \<open>\<open>s.splitlines()\<close>: CR LF is one boundary; no empty last line after a final boundary.\<close>

fun splitlines_aux :: "string \<Rightarrow> string \<Rightarrow> string list" where
  "splitlines_aux cur [] = (if cur = [] then [] else [cur])"
| "splitlines_aux cur (c # cs) =
     (if c = CHR 0x0D then
        (case cs of
           [] \<Rightarrow> cur # splitlines_aux [] cs
         | d # ds \<Rightarrow> if d = CHR 0x0A then cur # splitlines_aux [] ds
                     else cur # splitlines_aux [] cs)
      else if is_linebreak c then cur # splitlines_aux [] cs
      else splitlines_aux (cur @ [c]) cs)"

definition splitlines :: "string \<Rightarrow> string list" where
  "splitlines s = splitlines_aux [] s"

text \<open>
  \<open>int(part)\<close> for a run of decimal digits. The value is read digit by digit. CPython
  refuses to convert a string of more than \<open>max_str_digits\<close> digits (leading zeros count)
  with a \<open>ValueError\<close>; the limit is a setting of the interpreter, 4300 unless changed, and 0
  switches it off (older interpreters have no limit). Strings of at most 640 digits are never
  checked against it. The limit is a parameter of every function that calls \<open>int\<close>.
\<close>

definition digit_value :: "char \<Rightarrow> int" where
  "digit_value c = int (of_char c) - 48"

definition horner_value :: "string \<Rightarrow> int" where
  "horner_value ds = fold (\<lambda>c n. 10 * n + digit_value c) ds 0"

definition exceeds_limit :: "nat \<Rightarrow> string \<Rightarrow> bool" where
  "exceeds_limit max_str_digits ds \<longleftrightarrow>
     640 < length ds \<and> 0 < max_str_digits \<and> max_str_digits < length ds"

text \<open>\<open>str(n)\<close> for a natural number, as the message of the \<open>ValueError\<close> prints it.\<close>

function string_of_nat :: "nat \<Rightarrow> string" where
  "string_of_nat n =
     (if n < 10 then [''0123456789'' ! n]
      else string_of_nat (n div 10) @ [''0123456789'' ! (n mod 10)])"
  by pat_completeness auto
termination
  by (relation "measure id") auto

declare string_of_nat.simps [simp del]

definition int_of_digits :: "nat \<Rightarrow> string \<Rightarrow> int result" where
  "int_of_digits max_str_digits ds =
     (if exceeds_limit max_str_digits ds
      then Inl (ValueError (''Exceeds the limit ('' @ string_of_nat max_str_digits
             @ '' digits) for integer string conversion: value has ''
             @ string_of_nat (length ds)
             @ '' digits; use sys.set_int_max_str_digits() to increase the limit''))
      else Inr (horner_value ds))"

text \<open>\<open>re.findall(r'\d+', s)\<close>: the maximal runs of digits, from left to right.\<close>

fun findall_digits_aux :: "string \<Rightarrow> string \<Rightarrow> string list" where
  "findall_digits_aux cur [] = (if cur = [] then [] else [cur])"
| "findall_digits_aux cur (c # cs) =
     (if is_digit c then findall_digits_aux (cur @ [c]) cs
      else if cur = [] then findall_digits_aux [] cs
      else cur # findall_digits_aux [] cs)"

definition findall_digits :: "string \<Rightarrow> string list" where
  "findall_digits s = findall_digits_aux [] s"

text \<open>A list comprehension whose element expression may raise: the first exception ends it.\<close>

fun map_result :: "('a \<Rightarrow> 'b result) \<Rightarrow> 'a list \<Rightarrow> 'b list result" where
  "map_result f [] = Inr []"
| "map_result f (x # xs) =
     (case f x of
        Inl e \<Rightarrow> Inl e
      | Inr y \<Rightarrow> (case map_result f xs of Inl e \<Rightarrow> Inl e | Inr ys \<Rightarrow> Inr (y # ys)))"

subsection \<open>Port Ordering and Projection: \<open>sort_eth_interfaces\<close>, \<open>prepare_interface_data\<close>\<close>

definition interface_sort_key :: "nat \<Rightarrow> string \<Rightarrow> int list result" where
  "interface_sort_key max_str_digits interface_name =
     map_result (int_of_digits max_str_digits) (findall_digits interface_name)"

text \<open>
  \<open>sorted(items, key=...)\<close> first computes the key of every item, in the order of the list
  (an exception of the key function ends the call), and then sorts the items stably,
  comparing the keys only. The keys are Python lists of integers, which compare
  lexicographically, a proper prefix being smaller: the order of \<open>HOL-Library.List_Lexorder\<close>.
  \<open>sort_key\<close> is a stable sort.
\<close>

definition sort_eth_interfaces ::
  "nat \<Rightarrow> (string \<times> PortCounters) list \<Rightarrow> (string \<times> PortCounters) list result" where
  "sort_eth_interfaces max_str_digits interfaces =
     (let eth_interfaces = filter (\<lambda>(port, data). prefix ''Eth'' port) interfaces in
      case map_result (\<lambda>x. interface_sort_key max_str_digits (fst x)) eth_interfaces of
        Inl e \<Rightarrow> Inl e
      | Inr keys \<Rightarrow> Inr (map snd (sort_key fst (zip keys eth_interfaces))))"

text \<open>\<open>int(re.findall(r'\d+', port)[0])\<close>: the index raises when there is no run of digits.\<close>

definition first_port_number :: "nat \<Rightarrow> string \<Rightarrow> int result" where
  "first_port_number max_str_digits port =
     (case findall_digits port of
        [] \<Rightarrow> Inl IndexError
      | part # _ \<Rightarrow> int_of_digits max_str_digits part)"

text \<open>
  \<open>rate / 1_000_000 if rate else 0\<close>. True division of an integer gives the nearest double and
  raises \<open>OverflowError\<close> when that is beyond the largest double, that is when the magnitude of
  the quotient is at least \<open>2^1024 - 2^970\<close>; division of a double by a million cannot
  overflow. The value kept here is the exact quotient (its rounding to a double is not
  modelled).
\<close>

definition truthy :: "py_num \<Rightarrow> bool" where
  "truthy x = (case x of PyInt n \<Rightarrow> n \<noteq> 0 | PyFloat f \<Rightarrow> f \<noteq> 0)"

definition too_large_for_float :: "py_num \<Rightarrow> bool" where
  "too_large_for_float x =
     (case x of
        PyInt n \<Rightarrow> 2 ^ 1024 - 2 ^ 970 \<le> \<bar>rat_of_int n / 1000000\<bar>
      | PyFloat f \<Rightarrow> False)"

definition true_div_million :: "py_num \<Rightarrow> rat result" where
  "true_div_million x =
     (if too_large_for_float x
      then Inl (OverflowError ''integer division result too large for a float'')
      else Inr (case x of PyInt n \<Rightarrow> rat_of_int n / 1000000 | PyFloat f \<Rightarrow> f / 1000000))"

definition scale_rate :: "py_num \<Rightarrow> rat result" where
  "scale_rate rate = (if truthy rate then true_div_million rate else Inr 0)"

record port_series =
  labels :: "string list"
  port_numbers :: "int list"
  in_bps_data :: "rat list"
  out_bps_data :: "rat list"
  in_errors_data :: "int list"
  out_errors_data :: "int list"
  frame_too_longs_data :: "int list"
  frame_too_shorts_data :: "int list"
  fcs_errors_data :: "int list"
  alignment_errors_data :: "int list"
  symbol_errors_data :: "int list"
  total_errors_data :: "int list"

text \<open>
  The lists are built one after the other, in the order of the source: the port numbers
  (which may raise \<open>IndexError\<close> or \<open>ValueError\<close>), the inbound rates and the outbound rates
  (which may raise \<open>OverflowError\<close>), then the eight counter lists.
\<close>

definition prepare_interface_data ::
  "nat \<Rightarrow> (string \<times> PortCounters) list \<Rightarrow> port_series result" where
  "prepare_interface_data max_str_digits sorted_interfaces =
     (let ports = map fst sorted_interfaces in
      result_bind (map_result (first_port_number max_str_digits) ports) (\<lambda>numbers.
      result_bind (map_result (\<lambda>(_, data). scale_rate (inBpsRate data)) sorted_interfaces) (\<lambda>in_bps.
      result_bind (map_result (\<lambda>(_, data). scale_rate (outBpsRate data)) sorted_interfaces) (\<lambda>out_bps.
      Inr \<lparr> labels = ports,
            port_numbers = numbers,
            in_bps_data = in_bps,
            out_bps_data = out_bps,
            in_errors_data = map (\<lambda>(_, data). inErrors data) sorted_interfaces,
            out_errors_data = map (\<lambda>(_, data). outErrors data) sorted_interfaces,
            frame_too_longs_data = map (\<lambda>(_, data). frameTooLongs data) sorted_interfaces,
            frame_too_shorts_data = map (\<lambda>(_, data). frameTooShorts data) sorted_interfaces,
            fcs_errors_data = map (\<lambda>(_, data). fcsErrors data) sorted_interfaces,
            alignment_errors_data = map (\<lambda>(_, data). alignmentErrors data) sorted_interfaces,
            symbol_errors_data = map (\<lambda>(_, data). symbolErrors data) sorted_interfaces,
            total_errors_data = map (\<lambda>(_, data). totalErrors data) sorted_interfaces \<rparr>))))"

text \<open>
  Ordering followed by projection, as \<open>generate_html_report\<close> calls them on the normalized
  mapping.
\<close>

definition ordered_port_series ::
  "nat \<Rightarrow> (string \<times> PortCounters) list \<Rightarrow> port_series result" where
  "ordered_port_series max_str_digits interface_counters =
     result_bind (sort_eth_interfaces max_str_digits interface_counters)
       (prepare_interface_data max_str_digits)"

subsection \<open>The digit-tuple sort key, in the words of the specification\<close>

text \<open>
  A maximal run of decimal digits of a name starts at a position that holds a digit and is
  not preceded by a digit, and extends over all the digits that follow. The runs are taken
  in order of appearance, each is read as a decimal numeral (the digit at a position counts
  ten to the power of the number of digits after it), and the tuples of integers obtained
  are compared lexicographically. None of these definitions is used by the embedding of the
  code.
\<close>

definition run_starts :: "string \<Rightarrow> nat list" where
  "run_starts s =
     filter (\<lambda>i. is_digit (s ! i) \<and> (i = 0 \<or> \<not> is_digit (s ! (i - 1)))) [0..<length s]"

definition maximal_digit_runs :: "string \<Rightarrow> string list" where
  "maximal_digit_runs s = map (\<lambda>i. takeWhile is_digit (drop i s)) (run_starts s)"

definition decimal_value :: "string \<Rightarrow> int" where
  "decimal_value ds =
     (\<Sum>i\<leftarrow>[0..<length ds]. (int (of_char (ds ! i)) - 48) * 10 ^ (length ds - Suc i))"

definition digit_tuple :: "string \<Rightarrow> int list" where
  "digit_tuple name = map decimal_value (maximal_digit_runs name)"

fun tuple_le :: "int list \<Rightarrow> int list \<Rightarrow> bool" where
  "tuple_le [] ys = True"
| "tuple_le (x # xs) [] = False"
| "tuple_le (x # xs) (y # ys) = (x < y \<or> (x = y \<and> tuple_le xs ys))"

text \<open>
  The starts of the runs of a text that follows a digit (\<open>b\<close>) or does not: an auxiliary
  notion for the proofs.
\<close>

definition starts_from :: "bool \<Rightarrow> string \<Rightarrow> nat list" where
  "starts_from b s =
     filter (\<lambda>i. is_digit (s ! i) \<and> (if i = 0 then \<not> b else \<not> is_digit (s ! (i - 1))))
       [0..<length s]"

text \<open>The filter of \<open>sort_eth_interfaces\<close>, and a record with all numbers zero used in examples.\<close>

definition idle_port :: PortCounters where
  "idle_port = \<lparr> description = [], outBpsRate = PyInt 0, inBpsRate = PyInt 0, totalErrors = 0,
     inErrors = 0, outErrors = 0, frameTooLongs = 0, frameTooShorts = 0, fcsErrors = 0,
     alignmentErrors = 0, symbolErrors = 0 \<rparr>"

definition starts_with_Eth :: "string \<times> PortCounters \<Rightarrow> bool" where
  "starts_with_Eth = (\<lambda>(port, data). prefix ''Eth'' port)"

text \<open>A name with at least one decimal digit.\<close>

definition has_digit :: "string \<Rightarrow> bool" where
  "has_digit s = list_ex is_digit s"

text \<open>The Eth-prefixed names all of whose digit runs \<open>int\<close> accepts, and whose rates divide.\<close>

definition runs_accepted :: "nat \<Rightarrow> string \<Rightarrow> bool" where
  "runs_accepted max_str_digits name =
     list_all (\<lambda>r. \<not> exceeds_limit max_str_digits r) (maximal_digit_runs name)"

subsection \<open>Text Table Parser: \<open>get_environment_info\<close>\<close>

text \<open>
  The regular expressions of the parser, each as a function from the line to the captured
  groups (\<open>None\<close> when \<open>re.match\<close> returns \<open>None\<close>). \<open>re.match\<close> anchors at the start of the
  line only. In every pattern but the airflow one, each repetition is followed by a
  character outside its class (or by the end of the pattern), so the greedy match is the
  maximal run and no shorter run can match: \<open>re_plus\<close> takes the maximal run.
\<close>

definition re_plus :: "(char \<Rightarrow> bool) \<Rightarrow> string \<Rightarrow> (string \<times> string) option" where
  \<comment> \<open>\<open>[class]+\<close>: the non-empty maximal run and the rest of the line\<close>
  "re_plus cls s =
     (if takeWhile cls s = [] then None else Some (takeWhile cls s, dropWhile cls s))"

definition re_lit :: "string \<Rightarrow> string \<Rightarrow> string option" where
  \<comment> \<open>a literal: the rest of the line after it\<close>
  "re_lit l s = (if prefix l s then Some (drop (length l) s) else None)"

definition cooling_match :: "string \<Rightarrow> string option" where
  \<comment> \<open>\<open>System cooling status is:\s*(\w+)\<close>\<close>
  "cooling_match line = do {
     r \<leftarrow> re_lit ''System cooling status is:'' line;
     (g1, _) \<leftarrow> re_plus is_word (dropWhile is_space r);
     Some g1 }"

definition temp_match :: "string \<Rightarrow> string option" where
  \<comment> \<open>\<open>Ambient temperature:\s*(\d+)C\<close>\<close>
  "temp_match line = do {
     r \<leftarrow> re_lit ''Ambient temperature:'' line;
     (g1, r1) \<leftarrow> re_plus is_digit (dropWhile is_space r);
     _ \<leftarrow> re_lit ''C'' r1;
     Some g1 }"

definition airflow_match :: "string \<Rightarrow> string option" where
  \<comment> \<open>\<open>Airflow:\s*(.+)\<close>: \<open>.\<close> is any character but LF. When only white space follows the
      colon, \<open>\s*\<close> gives characters back until \<open>.+\<close> can match one.\<close>
  "airflow_match line = do {
     r \<leftarrow> re_lit ''Airflow:'' line;
     if dropWhile is_space r \<noteq> [] then Some (takeWhile (\<lambda>c. c \<noteq> CHR 0x0A) (dropWhile is_space r))
     else (case dropWhile (\<lambda>c. c = CHR 0x0A) (rev r) of [] \<Rightarrow> None | c # _ \<Rightarrow> Some [c]) }"

definition fan_header :: "string \<Rightarrow> bool" where
  \<comment> \<open>\<open>line.startswith("Fan") and "Status" in line\<close>\<close>
  "fan_header line \<longleftrightarrow> prefix ''Fan'' line \<and> sublist ''Status'' line"

definition power_header :: "string \<Rightarrow> bool" where
  \<comment> \<open>\<open>line.startswith("Power") and "Supply" in line\<close>\<close>
  "power_header line \<longleftrightarrow> prefix ''Power'' line \<and> sublist ''Supply'' line"

definition separator_match :: "string \<Rightarrow> bool" where
  \<comment> \<open>\<open>re.match(r"[-\s]+", line)\<close> is not \<open>None\<close>\<close>
  "separator_match line \<longleftrightarrow> re_plus (\<lambda>c. c = CHR ''-'' \<or> is_space c) line \<noteq> None"

definition fan_match :: "string \<Rightarrow> (string \<times> string \<times> string \<times> string) option" where
  \<comment> \<open>\<open>(\S+)\s+(\w+)\s+(\d+)%\s+(\d+)%\<close>\<close>
  "fan_match line = do {
     (g1, r1) \<leftarrow> re_plus (\<lambda>c. \<not> is_space c) line;
     (_, r2) \<leftarrow> re_plus is_space r1;
     (g2, r3) \<leftarrow> re_plus is_word r2;
     (_, r4) \<leftarrow> re_plus is_space r3;
     (g3, r5) \<leftarrow> re_plus is_digit r4;
     r6 \<leftarrow> re_lit ''%'' r5;
     (_, r7) \<leftarrow> re_plus is_space r6;
     (g4, r8) \<leftarrow> re_plus is_digit r7;
     _ \<leftarrow> re_lit ''%'' r8;
     Some (g1, g2, g3, g4) }"

definition power_match ::
  "string \<Rightarrow> (string \<times> string \<times> string \<times> string \<times> string \<times> string \<times> string) option" where
  \<comment> \<open>\<open>(\S+)\s+([\w-]+)\s+(\d+W)\s+([\d\.]+A)\s+([\d\.]+A)\s+([\d\.]+W)\s+(\w+)\<close>\<close>
  "power_match line = do {
     (g1, r1) \<leftarrow> re_plus (\<lambda>c. \<not> is_space c) line;
     (_, r2) \<leftarrow> re_plus is_space r1;
     (g2, r3) \<leftarrow> re_plus (\<lambda>c. is_word c \<or> c = CHR ''-'') r2;
     (_, r4) \<leftarrow> re_plus is_space r3;
     (d3, r5) \<leftarrow> re_plus is_digit r4;
     r6 \<leftarrow> re_lit ''W'' r5;
     (_, r7) \<leftarrow> re_plus is_space r6;
     (d4, r8) \<leftarrow> re_plus (\<lambda>c. is_digit c \<or> c = CHR ''.'') r7;
     r9 \<leftarrow> re_lit ''A'' r8;
     (_, r10) \<leftarrow> re_plus is_space r9;
     (d5, r11) \<leftarrow> re_plus (\<lambda>c. is_digit c \<or> c = CHR ''.'') r10;
     r12 \<leftarrow> re_lit ''A'' r11;
     (_, r13) \<leftarrow> re_plus is_space r12;
     (d6, r14) \<leftarrow> re_plus (\<lambda>c. is_digit c \<or> c = CHR ''.'') r13;
     r15 \<leftarrow> re_lit ''W'' r14;
     (_, r16) \<leftarrow> re_plus is_space r15;
     (g7, _) \<leftarrow> re_plus is_word r16;
     Some (g1, g2, d3 @ ''W'', d4 @ ''A'', d5 @ ''A'', d6 @ ''W'', g7) }"

text \<open>The local variables of the loop over the lines.\<close>

record parse_state =
  cooling_status :: string
  ambient_temperature :: string
  airflow :: string
  fan_status_list :: "string list"
  power_supply_status_list :: "string list"
  parsing_fan :: bool
  parsing_power :: bool

definition initial_state :: parse_state where
  "initial_state = \<lparr> cooling_status = ''N/A'', ambient_temperature = ''N/A'', airflow = ''N/A'',
     fan_status_list = [], power_supply_status_list = [], parsing_fan = False,
     parsing_power = False \<rparr>"

text \<open>The two f-strings that render a parsed row.\<close>

definition fan_entry :: "string \<times> string \<times> string \<times> string \<Rightarrow> string" where
  "fan_entry = (\<lambda>(g1, status, configured_speed, actual_speed).
     ''<strong>'' @ replace_Ethernet g1 @ '' Status:</strong> '' @ status
     @ '', <strong>Configured Speed:</strong> '' @ configured_speed
     @ ''%, <strong>Actual Speed:</strong> '' @ actual_speed @ ''%'')"

definition power_entry ::
  "string \<times> string \<times> string \<times> string \<times> string \<times> string \<times> string \<Rightarrow> string" where
  "power_entry = (\<lambda>(g1, model, capacity, input_current, output_current, power, status).
     ''<strong>'' @ replace_Ethernet g1 @ '' Status:</strong> '' @ status
     @ '', <strong>Model:</strong> '' @ model
     @ '', <strong>Capacity:</strong> '' @ capacity
     @ '', <strong>Input Current:</strong> '' @ input_current
     @ '', <strong>Output Current:</strong> '' @ output_current
     @ '', <strong>Power:</strong> '' @ power)"

text \<open>
  One iteration of the loop: every \<open>continue\<close> of the source is a branch that returns the
  state, in the source's order.
\<close>

definition process_line :: "parse_state \<Rightarrow> string \<Rightarrow> parse_state" where
  "process_line st raw =
     (let line = strip raw in
      if line = [] then st
      else case cooling_match line of
        Some g \<Rightarrow> st\<lparr>cooling_status := g\<rparr>
      | None \<Rightarrow>
     (case temp_match line of
        Some g \<Rightarrow> st\<lparr>ambient_temperature := g @ ''C''\<rparr>
      | None \<Rightarrow>
     (case airflow_match line of
        Some g \<Rightarrow> st\<lparr>airflow := g\<rparr>
      | None \<Rightarrow>
      if fan_header line then st\<lparr>parsing_fan := True, parsing_power := False\<rparr>
      else if power_header line then st\<lparr>parsing_power := True, parsing_fan := False\<rparr>
      else if separator_match line then st
      else if parsing_fan st then
        (case fan_match line of
           Some groups \<Rightarrow> st\<lparr>fan_status_list := fan_status_list st @ [fan_entry groups]\<rparr>
         | None \<Rightarrow> st)
      else if parsing_power st then
        (case power_match line of
           Some groups \<Rightarrow>
             st\<lparr>power_supply_status_list := power_supply_status_list st @ [power_entry groups]\<rparr>
         | None \<Rightarrow> st)
      else st)))"

definition parse_lines :: "string list \<Rightarrow> parse_state" where
  "parse_lines lines = fold (\<lambda>line st. process_line st line) lines initial_state"

text \<open>The dictionary \<open>get_environment_info\<close> returns.\<close>

record EnvironmentSnapshot =
  Cooling_Status :: string
  Ambient_Temperature :: string
  Fan_Status :: "string list"
  Power_Supply_Status :: "string list"

definition sentinel_snapshot :: EnvironmentSnapshot where
  "sentinel_snapshot = \<lparr> Cooling_Status = ''N/A'', Ambient_Temperature = ''N/A'',
     Fan_Status = [''N/A''], Power_Supply_Status = [''N/A''] \<rparr>"

text \<open>The end of the function: empty lists are replaced by the sentinel list.\<close>

definition snapshot_of :: "parse_state \<Rightarrow> EnvironmentSnapshot" where
  "snapshot_of st =
     \<lparr> Cooling_Status = cooling_status st,
       Ambient_Temperature = ambient_temperature st,
       Fan_Status = (if fan_status_list st = [] then [''N/A''] else fan_status_list st),
       Power_Supply_Status =
         (if power_supply_status_list st = [] then [''N/A''] else power_supply_status_list st) \<rparr>"

text \<open>\<open>xs[i]\<close> for a non-negative index.\<close>

definition getitem :: "'a list \<Rightarrow> nat \<Rightarrow> 'a result" where
  "getitem xs i = (if i < length xs then Inr (xs ! i) else Inl IndexError)"

text \<open>
  The result object of one command in a reply of the switch, read through the keys the
  program reads from it; a key is \<open>None\<close> when the object does not have it. (The keys that
  only \<open>get_switch_info\<close> reads from the \<open>show version\<close> result, all with \<open>.get\<close> and a
  default, are not listed: they reach nothing but the text of the report.)
\<close>

record cmd_result =
  interfaces :: "(string \<times> rate_data) list option"
  interfaceErrorCounters :: "(string \<rightharpoonup> (string \<rightharpoonup> int)) option"
  messages :: "string list option"
  fqdn :: "string option"

text \<open>
  \<open>get_environment_info\<close> from \<open>env_info = response['result'][0]\<close> on: the part that the
  specification calls the Text Table Parser.
\<close>

definition get_environment_info_from :: "cmd_result \<Rightarrow> EnvironmentSnapshot result" where
  "get_environment_info_from env_info =
     (let msgs = (case messages env_info of None \<Rightarrow> [] | Some m \<Rightarrow> m) in
      if msgs = [] then Inr sentinel_snapshot
      else case getitem msgs 0 of
        Inl e \<Rightarrow> Inl e
      | Inr message_str \<Rightarrow> Inr (snapshot_of (parse_lines (splitlines message_str))))"

subsection \<open>Command Executor and the run: \<open>execute_command\<close>, \<open>generate_html_report\<close>, \<open>main\<close>\<close>

text \<open>
  What \<open>requests.post\<close>, \<open>raise_for_status\<close> and \<open>response.json()\<close> do for one batch of
  commands, as the \<open>except\<close> clauses of \<open>execute_command\<close> tell the outcomes apart: a timeout,
  another \<open>RequestException\<close> (with its text), a \<open>JSONDecodeError\<close>, or a decoded reply. A reply
  is read through its keys \<open>error\<close> (with the text the f-string prints for it) and \<open>result\<close>.
\<close>

record rpc_reply =
  rpc_error :: "string option"
  rpc_result :: "cmd_result list option"

datatype http_outcome =
    Timeout
  | RequestException string
  | JSONDecodeError
  | Reply rpc_reply

definition execute_command :: "(string list \<Rightarrow> http_outcome) \<Rightarrow> string list \<Rightarrow> rpc_reply result" where
  "execute_command post commands =
     (case post commands of
        Timeout \<Rightarrow> Inl (Exception ''Connection timed out while trying to reach the switch.'')
      | RequestException e \<Rightarrow> Inl (Exception (''Network error: '' @ e))
      | JSONDecodeError \<Rightarrow> Inl (Exception ''Invalid JSON response from the switch.'')
      | Reply r \<Rightarrow>
          (case rpc_error r of
             Some e \<Rightarrow> Inl (Exception (''API error: '' @ e))
           | None \<Rightarrow> Inr r))"

text \<open>\<open>response['result'][i]\<close> and \<open>d[key]\<close> for a key the object may lack.\<close>

definition result_item :: "rpc_reply \<Rightarrow> nat \<Rightarrow> cmd_result result" where
  "result_item response i =
     (case rpc_result response of
        None \<Rightarrow> Inl (KeyError ''result'')
      | Some r \<Rightarrow> getitem r i)"

definition getkey :: "string \<Rightarrow> 'a option \<Rightarrow> 'a result" where
  "getkey k v = (case v of None \<Rightarrow> Inl (KeyError k) | Some x \<Rightarrow> Inr x)"

text \<open>
  \<open>get_switch_info\<close>: the entry \<open>FQDN\<close> names the report file. The other entries are formatted
  from \<open>version_info\<close> and the clock (the uptime from the boot time, the memory figures
  divided by 1024); they are kept here as the object they are formatted from, and their
  arithmetic, which raises only for a boot time or a memory figure beyond the range of a
  double, is not modelled.
\<close>

record switch_info =
  FQDN :: string
  version_info :: cmd_result

definition get_switch_info :: "(string list \<Rightarrow> http_outcome) \<Rightarrow> switch_info result" where
  "get_switch_info post =
     result_bind (execute_command post [''show version'', ''show hostname'']) (\<lambda>response.
     result_bind (result_item response 0) (\<lambda>version.
     result_bind (result_item response 1) (\<lambda>hostname_info.
     Inr \<lparr> FQDN = (case fqdn hostname_info of None \<Rightarrow> ''N/A'' | Some f \<Rightarrow> f),
           version_info = version \<rparr>)))"

definition get_interface_counters ::
  "(string list \<Rightarrow> http_outcome) \<Rightarrow> (string \<times> PortCounters) list result" where
  "get_interface_counters post =
     result_bind (execute_command post [''show interfaces counters rates'']) (\<lambda>response_rates.
     result_bind (execute_command post [''show interfaces counters errors'']) (\<lambda>response_errors.
     result_bind (result_item response_rates 0) (\<lambda>rates0.
     result_bind (getkey ''interfaces'' (interfaces rates0)) (\<lambda>interfaces_rates.
     result_bind (result_item response_errors 0) (\<lambda>errors0.
     result_bind (getkey ''interfaceErrorCounters'' (interfaceErrorCounters errors0)) (\<lambda>interfaces_errors.
     Inr (get_interface_counters_from interfaces_rates interfaces_errors)))))))"

definition get_environment_info :: "(string list \<Rightarrow> http_outcome) \<Rightarrow> EnvironmentSnapshot result" where
  "get_environment_info post =
     result_bind (execute_command post [''show environment all'']) (\<lambda>response.
     result_bind (result_item response 0) (\<lambda>env_info.
     get_environment_info_from env_info))"

text \<open>
  The world a run acts on: the files written and the lines printed. Writing the file is taken
  to succeed. The text of the report is a parameter \<open>render\<close> of the values it is formatted
  from (\<open>generate_interface_rows\<close>, \<open>json.dumps\<close> and the f-string template), and \<open>stamp\<close> is the
  formatted \<open>datetime.now()\<close>. \<open>max_str_digits\<close> is the interpreter's limit for \<open>int\<close>.
\<close>

record world =
  files :: "(string \<times> string) list"
  stdout :: "string list"

type_synonym renderer =
  "switch_info \<Rightarrow> EnvironmentSnapshot \<Rightarrow> (string \<times> PortCounters) list \<Rightarrow> port_series \<Rightarrow> string"

definition report_document ::
  "nat \<Rightarrow> (string list \<Rightarrow> http_outcome) \<Rightarrow> string \<Rightarrow> renderer \<Rightarrow> (string \<times> string) result" where
  \<comment> \<open>the body of \<open>generate_html_report\<close> up to \<open>open\<close>: the file name and the text\<close>
  "report_document max_str_digits post stamp render =
     result_bind (get_switch_info post) (\<lambda>info.
     result_bind (get_interface_counters post) (\<lambda>interface_counters.
     result_bind (get_environment_info post) (\<lambda>environment_info.
     result_bind (sort_eth_interfaces max_str_digits interface_counters) (\<lambda>sorted_eth_interfaces.
     result_bind (prepare_interface_data max_str_digits sorted_eth_interfaces) (\<lambda>data.
     Inr (FQDN info @ ''-'' @ stamp @ ''-report.html'',
          render info environment_info sorted_eth_interfaces data))))))"

definition generate_html_report ::
  "nat \<Rightarrow> (string list \<Rightarrow> http_outcome) \<Rightarrow> string \<Rightarrow> renderer \<Rightarrow> world \<Rightarrow> unit result \<times> world" where
  "generate_html_report max_str_digits post stamp render w =
     (case report_document max_str_digits post stamp render of
        Inl e \<Rightarrow> (Inl e, w)
      | Inr (name, html_content) \<Rightarrow> (Inr (), w\<lparr>files := files w @ [(name, html_content)]\<rparr>))"

text \<open>\<open>main\<close>: \<open>except Exception\<close> catches every exception of the model.\<close>

definition main ::
  "nat \<Rightarrow> (string list \<Rightarrow> http_outcome) \<Rightarrow> string \<Rightarrow> renderer \<Rightarrow> world \<Rightarrow> world" where
  "main max_str_digits post stamp render w =
     (case generate_html_report max_str_digits post stamp render w of
        (Inr _, w') \<Rightarrow> w'\<lparr>stdout := stdout w' @ [''Report generated successfully'']\<rparr>
      | (Inl e, w') \<Rightarrow> w'\<lparr>stdout := stdout w' @ [''Error generating report: '' @ str_exn e]\<rparr>)"

text \<open>
  The script: \<open>if __name__ == "__main__": main()\<close>. \<open>main\<close> returns in both branches and the
  program never calls \<open>sys.exit\<close>, so the interpreter ends with exit status 0.
\<close>

definition run_script ::
  "nat \<Rightarrow> (string list \<Rightarrow> http_outcome) \<Rightarrow> string \<Rightarrow> renderer \<Rightarrow> world \<Rightarrow> int \<times> world" where
  "run_script max_str_digits post stamp render w = (0, main max_str_digits post stamp render w)"

text \<open>
  The first exception raised while the three replies are fetched and read, in program order:
  a failure of the transport (\<open>execute_command\<close> raises) or a reply that lacks an expected
  field or list element.
\<close>

definition fetch_error :: "(string list \<Rightarrow> http_outcome) \<Rightarrow> py_exn option" where
  "fetch_error post =
     (case get_switch_info post of
        Inl e \<Rightarrow> Some e
      | Inr _ \<Rightarrow>
     (case get_interface_counters post of
        Inl e \<Rightarrow> Some e
      | Inr _ \<Rightarrow>
     (case get_environment_info post of
        Inl e \<Rightarrow> Some e
      | Inr _ \<Rightarrow> None)))"

definition commands_sent :: "string list list" where
  "commands_sent = [[''show version'', ''show hostname''], [''show interfaces counters rates''],
     [''show interfaces counters errors''], [''show environment all'']]"

text \<open>
  A reply that lacks a field or list element the program indexes: no \<open>result\<close>, an empty
  \<open>result\<close>, no second result for the two-command batch, or no \<open>interfaces\<close> or
  \<open>interfaceErrorCounters\<close> in the result of the command that should carry it. A batch of
  commands fails when the executor raises for it or its reply is of this kind.
\<close>

definition malformed_reply :: "string list \<Rightarrow> rpc_reply \<Rightarrow> bool" where
  "malformed_reply cmds r =
     (case rpc_result r of
        None \<Rightarrow> True
      | Some [] \<Rightarrow> True
      | Some (c # cs) \<Rightarrow>
          (cmds = [''show version'', ''show hostname''] \<and> cs = [])
        \<or> (cmds = [''show interfaces counters rates''] \<and> interfaces c = None)
        \<or> (cmds = [''show interfaces counters errors''] \<and> interfaceErrorCounters c = None))"

definition command_fails :: "(string list \<Rightarrow> http_outcome) \<Rightarrow> string list \<Rightarrow> bool" where
  "command_fails post cmds =
     (case execute_command post cmds of Inl e \<Rightarrow> True | Inr r \<Rightarrow> malformed_reply cmds r)"

text \<open>Lines made of dashes and white space only.\<close>

definition only_dashes_and_space :: "string \<Rightarrow> bool" where
  "only_dashes_and_space line = list_all (\<lambda>c. c = CHR ''-'' \<or> is_space c) line"

section \<open>Theorems\<close>





subsection \<open>Counter Normalizer\<close>



lemma combine_absent: "errors_all_zero (combine rate Map.empty) \<and> totalErrors (combine rate Map.empty) = 0"
  by (simp add: combine_def get_int_def errors_all_zero_def)

lemma counters_step_pair:
  "counters_step errs (port, rate) acc =
     AList.update (replace_Ethernet port) (combine rate (error_entry errs port)) acc"
  by (simp add: counters_step_def)

lemma keys_fold_counters:
  "fst ` set (fold (counters_step errs) rates acc) = replace_Ethernet ` fst ` set rates \<union> fst ` set acc"
proof (induction rates arbitrary: acc)
  case Nil
  show ?case by simp
next
  case (Cons x rates)
  obtain port rate where x: "x = (port, rate)" by (cases x)
  show ?case
    by (auto simp add: Cons.IH x counters_step_pair dom_update)
qed

lemma distinct_fold_counters:
  "distinct (map fst acc) \<Longrightarrow> distinct (map fst (fold (counters_step errs) rates acc))"
proof (induction rates arbitrary: acc)
  case Nil
  then show ?case by simp
next
  case (Cons x rates)
  obtain port rate where x: "x = (port, rate)" by (cases x)
  from Cons.prems have "distinct (map fst (counters_step errs x acc))"
    by (simp add: x counters_step_pair distinct_update)
  then show ?case
    using Cons.IH by simp
qed

lemma fold_counters_absent:
  assumes "\<forall>(q, r) \<in> set rates. replace_Ethernet q = k \<longrightarrow> errs q = None"
    and "\<forall>c. map_of acc k = Some c \<longrightarrow> errors_all_zero c \<and> totalErrors c = 0"
  shows "\<forall>c. map_of (fold (counters_step errs) rates acc) k = Some c \<longrightarrow> errors_all_zero c \<and> totalErrors c = 0"
  using assms
proof (induction rates arbitrary: acc)
  case Nil
  then show ?case by simp
next
  case (Cons x rates)
  obtain port rate where x: "x = (port, rate)" by (cases x)
  have step: "\<forall>c. map_of (counters_step errs x acc) k = Some c \<longrightarrow> errors_all_zero c \<and> totalErrors c = 0"
  proof (cases "replace_Ethernet port = k")
    case True
    with Cons.prems(1) have "errs port = None" by (simp add: x)
    then have "map_of (counters_step errs x acc) k = Some (combine rate Map.empty)"
      using True by (simp add: x counters_step_pair update_conv' error_entry_def)
    then show ?thesis
      using combine_absent [of rate] by auto
  next
    case False
    then have "map_of (counters_step errs x acc) k = map_of acc k"
      by (simp add: x counters_step_pair update_conv')
    then show ?thesis
      using Cons.prems(2) by metis
  qed
  from Cons.prems(1) have rest: "\<forall>(q, r) \<in> set rates. replace_Ethernet q = k \<longrightarrow> errs q = None"
    by simp
  have "\<forall>c. map_of (fold (counters_step errs) rates (counters_step errs x acc)) k = Some c
      \<longrightarrow> errors_all_zero c \<and> totalErrors c = 0"
    by (rule Cons.IH [OF rest step])
  then show ?case
    by simp
qed

text \<open>
  C3 (as amended). The mapping returned by the Counter Normalizer has exactly the
  canonicalized keys of the rate-counter mapping, each once. For every port of the rate
  mapping that has no entry in the error-counter mapping and whose canonical name no other
  rate port shares, the record stored under its canonical name has all seven error fields
  zero and \<open>totalErrors\<close> zero.
\<close>

theorem counters_keyed_by_rates_absent_errors_zero:
  "fst ` set (get_interface_counters_from rates errs) = replace_Ethernet ` fst ` set rates
   \<and> distinct (map fst (get_interface_counters_from rates errs))
   \<and> (\<forall>(port, rate) \<in> set rates.
        errs port = None \<and> (\<forall>q \<in> fst ` set rates. replace_Ethernet q = replace_Ethernet port \<longrightarrow> q = port)
        \<longrightarrow> (\<exists>c. map_of (get_interface_counters_from rates errs) (replace_Ethernet port) = Some c
              \<and> errors_all_zero c \<and> totalErrors c = 0))"
proof (intro conjI)
  show keys: "fst ` set (get_interface_counters_from rates errs) = replace_Ethernet ` fst ` set rates"
    by (simp add: get_interface_counters_from_def keys_fold_counters)
  show "distinct (map fst (get_interface_counters_from rates errs))"
    by (simp add: get_interface_counters_from_def distinct_fold_counters)
  show "\<forall>(port, rate) \<in> set rates.
        errs port = None \<and> (\<forall>q \<in> fst ` set rates. replace_Ethernet q = replace_Ethernet port \<longrightarrow> q = port)
        \<longrightarrow> (\<exists>c. map_of (get_interface_counters_from rates errs) (replace_Ethernet port) = Some c
              \<and> errors_all_zero c \<and> totalErrors c = 0)"
  proof (clarify)
    fix port rate
    assume mem: "(port, rate) \<in> set rates" and absent: "errs port = None"
      and only: "\<forall>q \<in> fst ` set rates. replace_Ethernet q = replace_Ethernet port \<longrightarrow> q = port"
    let ?k = "replace_Ethernet port"
    from mem have "?k \<in> fst ` set (get_interface_counters_from rates errs)"
      unfolding keys by force
    then obtain c where c: "map_of (get_interface_counters_from rates errs) ?k = Some c"
      by (auto simp: dom_map_of_conv_image_fst [symmetric])
    from only absent have "\<forall>(q, r) \<in> set rates. replace_Ethernet q = ?k \<longrightarrow> errs q = None"
      by force
    from fold_counters_absent [OF this, of "[]"] c
    have "errors_all_zero c \<and> totalErrors c = 0"
      by (simp add: get_interface_counters_from_def)
    with c show "\<exists>c. map_of (get_interface_counters_from rates errs) ?k = Some c
              \<and> errors_all_zero c \<and> totalErrors c = 0"
      by blast
  qed
qed


theorem counters_keyed_by_rates_absent_errors_zero_witness:
  "(''Ethernet1'', \<lparr>rd_description = None, rd_outBpsRate = None, rd_inBpsRate = None\<rparr>)
     \<in> set [(''Ethernet1'', \<lparr>rd_description = None, rd_outBpsRate = None, rd_inBpsRate = None\<rparr>),
            (''Ethernet2'', \<lparr>rd_description = None, rd_outBpsRate = None, rd_inBpsRate = None\<rparr>)]
   \<and> [''Ethernet2'' \<mapsto> [''inErrors'' \<mapsto> (5::int)]] ''Ethernet1'' = None
   \<and> (\<exists>c. map_of (get_interface_counters_from
          [(''Ethernet1'', \<lparr>rd_description = None, rd_outBpsRate = None, rd_inBpsRate = None\<rparr>),
           (''Ethernet2'', \<lparr>rd_description = None, rd_outBpsRate = None, rd_inBpsRate = None\<rparr>)]
          [''Ethernet2'' \<mapsto> [''inErrors'' \<mapsto> 5]]) ''Eth1'' = Some c
        \<and> errors_all_zero c \<and> totalErrors c = 0)
   \<and> fst ` set (get_interface_counters_from
          [(''Ethernet1'', \<lparr>rd_description = None, rd_outBpsRate = None, rd_inBpsRate = None\<rparr>),
           (''Ethernet2'', \<lparr>rd_description = None, rd_outBpsRate = None, rd_inBpsRate = None\<rparr>)]
          [''Ethernet2'' \<mapsto> [''inErrors'' \<mapsto> 5]]) = {''Eth1'', ''Eth2''}"
proof -
  let ?r = "\<lparr>rd_description = None, rd_outBpsRate = None, rd_inBpsRate = None\<rparr>"
  let ?rates = "[(''Ethernet1'', ?r), (''Ethernet2'', ?r)]"
  let ?errs = "[''Ethernet2'' \<mapsto> [''inErrors'' \<mapsto> (5::int)]]"
  have canon: "replace_Ethernet ''Ethernet1'' = ''Eth1''" "replace_Ethernet ''Ethernet2'' = ''Eth2''"
    by (simp_all add: replace_Ethernet.simps)
  have mem: "(''Ethernet1'', ?r) \<in> set ?rates"
    by simp
  have absent: "?errs ''Ethernet1'' = None"
    by simp
  have only: "\<forall>q \<in> fst ` set ?rates. replace_Ethernet q = replace_Ethernet ''Ethernet1'' \<longrightarrow> q = ''Ethernet1''"
    by (simp add: canon)
  from counters_keyed_by_rates_absent_errors_zero [of ?rates ?errs] mem absent only
  have "\<exists>c. map_of (get_interface_counters_from ?rates ?errs) (replace_Ethernet ''Ethernet1'') = Some c
        \<and> errors_all_zero c \<and> totalErrors c = 0"
    by blast
  moreover from counters_keyed_by_rates_absent_errors_zero [of ?rates ?errs]
  have "fst ` set (get_interface_counters_from ?rates ?errs) = {''Eth1'', ''Eth2''}"
    by (simp add: canon)
  ultimately show ?thesis
    using mem absent by (simp add: canon)
qed

text \<open>
  The claim as first stated fails when two ports of the rate mapping share a canonical name:
  \<open>Ethernet1\<close> has no error entry, but the record under \<open>Eth1\<close> is the one built last, for
  the port \<open>Eth1\<close>, and carries that port's errors.
\<close>

theorem absent_errors_zero_counterexample:
  "[''Eth1'' \<mapsto> [''inErrors'' \<mapsto> (5::int)]] ''Ethernet1'' = None
   \<and> get_interface_counters_from
        [(''Ethernet1'', \<lparr>rd_description = None, rd_outBpsRate = None, rd_inBpsRate = None\<rparr>),
         (''Eth1'', \<lparr>rd_description = None, rd_outBpsRate = None, rd_inBpsRate = None\<rparr>)]
        [''Eth1'' \<mapsto> [''inErrors'' \<mapsto> 5]]
      = [(''Eth1'', idle_port\<lparr>totalErrors := 5, inErrors := 5\<rparr>)]
   \<and> inErrors (idle_port\<lparr>totalErrors := 5, inErrors := 5\<rparr>) = 5"
  by (simp add: get_interface_counters_from_def counters_step_def combine_def
        error_entry_def get_int_def replace_Ethernet.simps idle_port_def)

subsection \<open>Port Ordering\<close>

lemma upt_0_Suc: "[0..<Suc n] = 0 # map Suc [0..<n]"
  by (simp add: upt_conv_Cons map_Suc_upt del: upt_Suc)

lemma starts_from_Cons:
  "starts_from b (c # cs) =
     (if is_digit c \<and> \<not> b then [0] else []) @ map Suc (starts_from (is_digit c) cs)"
proof -
  have "filter (\<lambda>i. is_digit ((c # cs) ! i)
          \<and> (if i = 0 then \<not> b else \<not> is_digit ((c # cs) ! (i - 1)))) (map Suc [0..<length cs])
      = map Suc (starts_from (is_digit c) cs)"
    unfolding starts_from_def filter_map
    by (rule arg_cong [where f = "map Suc"], rule filter_cong) (auto simp: nth_Cons')
  then show ?thesis
    unfolding starts_from_def [of b] by (simp add: upt_0_Suc del: upt_Suc)
qed

lemma run_starts_starts_from: "run_starts s = starts_from False s"
  unfolding run_starts_def starts_from_def by (rule filter_cong) auto

lemma findall_digits_aux_runs:
  "findall_digits_aux cur s =
     (if cur = [] then map (\<lambda>i. takeWhile is_digit (drop i s)) (starts_from False s)
      else (cur @ takeWhile is_digit s) # map (\<lambda>i. takeWhile is_digit (drop i s)) (starts_from True s))"
proof (induction s arbitrary: cur)
  case Nil
  show ?case by (simp add: starts_from_def)
next
  case (Cons c cs)
  show ?case
    by (simp add: Cons.IH starts_from_Cons comp_def)
qed

lemma findall_digits_maximal_runs: "findall_digits s = maximal_digit_runs s"
  by (simp add: findall_digits_def findall_digits_aux_runs maximal_digit_runs_def
      run_starts_starts_from)

lemma decimal_value_Cons:
  "decimal_value (c # cs) = (int (of_char c) - 48) * 10 ^ length cs + decimal_value cs"
  by (simp add: decimal_value_def upt_0_Suc comp_def del: upt_Suc)

lemma fold_horner:
  "fold (\<lambda>c n. 10 * n + digit_value c) ds n = n * 10 ^ length ds + decimal_value ds"
proof (induction ds arbitrary: n)
  case Nil
  show ?case by (simp add: decimal_value_def)
next
  case (Cons c cs)
  have "fold (\<lambda>c n. 10 * n + digit_value c) (c # cs) n
      = fold (\<lambda>c n. 10 * n + digit_value c) cs (10 * n + digit_value c)"
    by simp
  also have "\<dots> = (10 * n + digit_value c) * 10 ^ length cs + decimal_value cs"
    by (rule Cons.IH)
  also have "\<dots> = n * 10 ^ length (c # cs) + decimal_value (c # cs)"
    by (simp add: decimal_value_Cons digit_value_def algebra_simps)
  finally show ?case .
qed

lemma horner_value_decimal: "horner_value ds = decimal_value ds"
  by (simp add: horner_value_def fold_horner)

lemma map_result_Inr_iff:
  "map_result f xs = Inr ys \<longleftrightarrow> list_all2 (\<lambda>x y. f x = Inr y) xs ys"
proof (induction xs arbitrary: ys)
  case Nil
  show ?case by auto
next
  case (Cons x xs)
  show ?case
    by (auto simp: list_all2_Cons1 Cons.IH [symmetric] split: sum.splits)
qed

lemma map_result_Inl:
  "map_result f xs = Inl e \<Longrightarrow> \<exists>x \<in> set xs. f x = Inl e"
  by (induction xs) (auto split: sum.splits)

lemma map_result_total:
  "(\<forall>x \<in> set xs. \<exists>y. f x = Inr y) \<Longrightarrow> \<exists>ys. map_result f xs = Inr ys"
  by (induction xs) (auto split: sum.splits)

lemma map_result_Inr_set:
  "map_result f xs = Inr ys \<Longrightarrow> \<forall>x \<in> set xs. \<exists>y. f x = Inr y"
  by (auto simp: map_result_Inr_iff list_all2_conv_all_nth in_set_conv_nth)

lemma map_result_Inr_map:
  "map_result f xs = Inr ys \<Longrightarrow> (\<And>x y. f x = Inr y \<Longrightarrow> y = g x) \<Longrightarrow> ys = map g xs"
  by (auto simp: map_result_Inr_iff list_all2_conv_all_nth intro!: nth_equalityI)

lemma int_of_digits_Inr: "int_of_digits mx ds = Inr v \<Longrightarrow> v = decimal_value ds"
  by (auto simp: int_of_digits_def horner_value_decimal split: if_splits)

lemma int_of_digits_ok_iff: "(\<exists>v. int_of_digits mx ds = Inr v) \<longleftrightarrow> \<not> exceeds_limit mx ds"
  by (auto simp: int_of_digits_def)

lemma interface_sort_key_Inr:
  "interface_sort_key mx name = Inr k \<Longrightarrow> k = digit_tuple name"
  unfolding interface_sort_key_def digit_tuple_def findall_digits_maximal_runs
  by (erule map_result_Inr_map) (rule int_of_digits_Inr)

lemma interface_sort_key_ok_iff:
  "(\<exists>k. interface_sort_key mx name = Inr k) \<longleftrightarrow> runs_accepted mx name"
proof
  assume "\<exists>k. interface_sort_key mx name = Inr k"
  then show "runs_accepted mx name"
    unfolding interface_sort_key_def findall_digits_maximal_runs runs_accepted_def
    using map_result_Inr_set [of "int_of_digits mx" "maximal_digit_runs name"]
      int_of_digits_ok_iff [of mx]
    by (auto simp: list_all_iff)
next
  assume "runs_accepted mx name"
  then show "\<exists>k. interface_sort_key mx name = Inr k"
    unfolding interface_sort_key_def findall_digits_maximal_runs runs_accepted_def
    by (intro map_result_total) (simp add: list_all_iff int_of_digits_ok_iff)
qed

lemma tuple_le_iff: "tuple_le a b \<longleftrightarrow> a \<le> b"
  by (induction a b rule: tuple_le.induct) auto

lemma insort_key_decorated:
  "insort_key fst (f x, x) (map (\<lambda>y. (f y, y)) ys) = map (\<lambda>y. (f y, y)) (insort_key f x ys)"
  by (induction ys) simp_all

lemma sort_key_decorated:
  "sort_key fst (map (\<lambda>y. (f y, y)) xs) = map (\<lambda>y. (f y, y)) (sort_key f xs)"
  by (induction xs) (simp_all add: insort_key_decorated)

lemma sort_decorate_undecorate:
  "map snd (sort_key fst (zip (map f xs) xs)) = sort_key f xs"
proof -
  have "zip (map f xs) xs = map (\<lambda>y. (f y, y)) xs"
    by (induction xs) simp_all
  then show ?thesis
    by (simp add: sort_key_decorated comp_def)
qed

lemma sort_eth_interfaces_alt:
  "sort_eth_interfaces mx xs =
     (case map_result (\<lambda>x. interface_sort_key mx (fst x)) (filter starts_with_Eth xs) of
        Inl e \<Rightarrow> Inl e
      | Inr keys \<Rightarrow> Inr (map snd (sort_key fst (zip keys (filter starts_with_Eth xs)))))"
  unfolding sort_eth_interfaces_def Let_def starts_with_Eth_def ..

lemma sort_eth_interfaces_Inr:
  assumes "sort_eth_interfaces mx xs = Inr ys"
  shows "ys = sort_key (\<lambda>x. digit_tuple (fst x)) (filter starts_with_Eth xs)"
proof -
  from assms obtain keys
    where keys: "map_result (\<lambda>x. interface_sort_key mx (fst x)) (filter starts_with_Eth xs) = Inr keys"
      and ys: "ys = map snd (sort_key fst (zip keys (filter starts_with_Eth xs)))"
    by (auto simp: sort_eth_interfaces_alt split: sum.splits)
  from keys have "keys = map (\<lambda>x. digit_tuple (fst x)) (filter starts_with_Eth xs)"
    by (rule map_result_Inr_map) (rule interface_sort_key_Inr)
  then show ?thesis
    by (simp add: ys sort_decorate_undecorate)
qed

lemma sort_eth_interfaces_ok_iff:
  "(\<exists>ys. sort_eth_interfaces mx xs = Inr ys)
     \<longleftrightarrow> (\<forall>x \<in> set xs. starts_with_Eth x \<longrightarrow> runs_accepted mx (fst x))"
proof -
  have "(\<exists>ys. sort_eth_interfaces mx xs = Inr ys)
     \<longleftrightarrow> (\<exists>keys. map_result (\<lambda>x. interface_sort_key mx (fst x)) (filter starts_with_Eth xs) = Inr keys)"
    by (auto simp: sort_eth_interfaces_alt split: sum.splits)
  also have "\<dots> \<longleftrightarrow> (\<forall>x \<in> set (filter starts_with_Eth xs). \<exists>k. interface_sort_key mx (fst x) = Inr k)"
    using map_result_total [of "filter starts_with_Eth xs" "\<lambda>x. interface_sort_key mx (fst x)"]
      map_result_Inr_set [of "\<lambda>x. interface_sort_key mx (fst x)" "filter starts_with_Eth xs"]
    by blast
  also have "\<dots> \<longleftrightarrow> (\<forall>x \<in> set xs. starts_with_Eth x \<longrightarrow> runs_accepted mx (fst x))"
    by (auto simp: interface_sort_key_ok_iff)
  finally show ?thesis .
qed

lemma runs_accepted_no_limit: "runs_accepted 0 name"
  by (simp add: runs_accepted_def exceeds_limit_def list_all_iff)

lemma findall_digits_aux_replicate:
  "is_digit d \<Longrightarrow> cur \<noteq> [] \<or> 0 < n \<Longrightarrow>
   findall_digits_aux cur (replicate n d) = [cur @ replicate n d]"
proof (induction n arbitrary: cur)
  case 0
  then show ?case by simp
next
  case (Suc n)
  from Suc.prems(1) have "findall_digits_aux cur (replicate (Suc n) d)
      = findall_digits_aux (cur @ [d]) (replicate n d)"
    by simp
  also have "\<dots> = [(cur @ [d]) @ replicate n d]"
    by (rule Suc.IH) (simp_all add: Suc.prems(1))
  finally show ?case
    by simp
qed

lemma findall_digits_Eth_replicate:
  "is_digit d \<Longrightarrow> 0 < n \<Longrightarrow> findall_digits (''Eth'' @ replicate n d) = [replicate n d]"
  using findall_digits_aux_replicate [of d "[]" n]
  by (simp add: findall_digits_def is_digit_def)

lemma keys_eval:
  "interface_sort_key mx ''Eth1/1'' = Inr [1, 1]" "interface_sort_key mx ''Eth1/2'' = Inr [1, 2]"
  "interface_sort_key mx ''Eth1/10'' = Inr [1, 10]" "interface_sort_key mx ''Eth2/1'' = Inr [2, 1]"
  by (simp_all add: interface_sort_key_def findall_digits_def is_digit_def int_of_digits_def
      exceeds_limit_def horner_value_def digit_value_def)

text \<open>
  C2 (as amended). Whenever the Port Ordering step returns, its result consists of the
  retained ports (those whose name starts with \<open>Eth\<close>), ordered by the digit tuple of the
  name: the integers read from the maximal runs of decimal digits of the name, in order of
  appearance, tuples compared lexicographically as integers; ports with the same tuple keep
  their original relative order. In particular, retained names that carry the tuples (1,1),
  (1,2), (1,10) and (2,1), in any input order, come out in exactly this sequence, (1,2)
  before (1,10). The step returns exactly when \<open>int\<close> accepts every digit run of every
  retained name, which is always so when the interpreter's digit limit is off; otherwise it
  raises.
\<close>

theorem ports_sorted_by_digit_tuple:
  "(sort_eth_interfaces max_str_digits xs = Inr ys \<longrightarrow>
      mset ys = mset (filter starts_with_Eth xs)
    \<and> sorted_wrt (\<lambda>a b. tuple_le (digit_tuple (fst a)) (digit_tuple (fst b))) ys
    \<and> (\<forall>k. filter (\<lambda>x. digit_tuple (fst x) = k) ys
           = filter (\<lambda>x. digit_tuple (fst x) = k) (filter starts_with_Eth xs))
    \<and> (mset (map (\<lambda>x. digit_tuple (fst x)) (filter starts_with_Eth xs))
           = mset [[1, 1], [1, 2], [1, 10], [2, 1]]
         \<longrightarrow> map (\<lambda>x. digit_tuple (fst x)) ys = [[1, 1], [1, 2], [1, 10], [2, 1]]))
   \<and> ((\<exists>ys. sort_eth_interfaces max_str_digits xs = Inr ys)
        \<longleftrightarrow> (\<forall>x \<in> set xs. starts_with_Eth x \<longrightarrow> runs_accepted max_str_digits (fst x)))
   \<and> (\<exists>ys. sort_eth_interfaces 0 xs = Inr ys)"
proof (intro conjI impI allI)
  let ?key = "\<lambda>x :: string \<times> PortCounters. digit_tuple (fst x)"
  let ?eth = "filter starts_with_Eth xs"
  assume "sort_eth_interfaces max_str_digits xs = Inr ys"
  then have ys: "ys = sort_key ?key ?eth"
    by (rule sort_eth_interfaces_Inr)
  show "mset ys = mset ?eth"
    by (simp add: ys)
  have sorted: "sorted (map ?key ys)"
    by (simp add: ys)
  then show "sorted_wrt (\<lambda>a b. tuple_le (?key a) (?key b)) ys"
    by (simp add: sorted_map tuple_le_iff)
  show "filter (\<lambda>x. ?key x = k) ys = filter (\<lambda>x. ?key x = k) ?eth" for k
    unfolding ys by (rule sort_key_stable)
  assume keys: "mset (map ?key ?eth) = mset [[1, 1], [1, 2], [1, 10], [2, 1]]"
  have "mset (map ?key ys) = mset (map ?key ?eth)"
    by (simp add: ys)
  with keys have "mset (map ?key ys) = mset [[1, 1], [1, 2], [1, 10], [2, 1]]"
    by simp
  from properties_for_sort [OF this sorted]
  show "map ?key ys = [[1, 1], [1, 2], [1, 10], [2, 1]]"
    by simp
next
  show "(\<exists>ys. sort_eth_interfaces max_str_digits xs = Inr ys)
        \<longleftrightarrow> (\<forall>x \<in> set xs. starts_with_Eth x \<longrightarrow> runs_accepted max_str_digits (fst x))"
    by (rule sort_eth_interfaces_ok_iff)
  show "\<exists>ys. sort_eth_interfaces 0 xs = Inr ys"
    by (simp add: sort_eth_interfaces_ok_iff runs_accepted_no_limit)
qed

theorem ports_sorted_by_digit_tuple_witness:
  "sort_eth_interfaces 4300
      [(''Eth1/10'', idle_port), (''Management1'', idle_port), (''Eth2/1'', idle_port),
       (''Eth1/2'', idle_port), (''Eth1/1'', idle_port)]
     = Inr [(''Eth1/1'', idle_port), (''Eth1/2'', idle_port), (''Eth1/10'', idle_port),
            (''Eth2/1'', idle_port)]
   \<and> map (\<lambda>x. digit_tuple (fst x))
       [(''Eth1/1'', idle_port), (''Eth1/2'', idle_port), (''Eth1/10'', idle_port),
        (''Eth2/1'', idle_port)] = [[1, 1], [1, 2], [1, 10], [2, 1]]"
proof -
  let ?xs = "[(''Eth1/10'', idle_port), (''Management1'', idle_port), (''Eth2/1'', idle_port),
       (''Eth1/2'', idle_port), (''Eth1/1'', idle_port)]"
  let ?ys = "[(''Eth1/1'', idle_port), (''Eth1/2'', idle_port), (''Eth1/10'', idle_port),
            (''Eth2/1'', idle_port)]"
  have run: "sort_eth_interfaces 4300 ?xs = Inr ?ys"
    by (simp add: sort_eth_interfaces_def keys_eval)
  have tuples: "digit_tuple ''Eth1/1'' = [1, 1]" "digit_tuple ''Eth1/2'' = [1, 2]"
    "digit_tuple ''Eth1/10'' = [1, 10]" "digit_tuple ''Eth2/1'' = [2, 1]"
    using keys_eval [of 4300, THEN interface_sort_key_Inr] by simp_all
  have "mset (map (\<lambda>x. digit_tuple (fst x)) (filter starts_with_Eth ?xs))
      = mset [[1, 1], [1, 2], [1, 10], [2, 1]]"
    by (simp add: starts_with_Eth_def tuples)
  with ports_sorted_by_digit_tuple [of 4300 ?xs ?ys] run
  have "map (\<lambda>x. digit_tuple (fst x)) ?ys = [[1, 1], [1, 2], [1, 10], [2, 1]]"
    by blast
  with run show ?thesis
    by blast
qed

text \<open>
  The claim as first stated, for any set of port names, fails under the interpreter's default
  limit of 4300 digits: for a port whose name has a run of 4301 digits the step raises
  \<open>ValueError\<close> and orders nothing.
\<close>

theorem long_digit_run_not_ordered_counterexample:
  "sort_eth_interfaces 4300 [(''Eth'' @ replicate 4301 (CHR ''1''), idle_port)]
     = Inl (ValueError ''Exceeds the limit (4300 digits) for integer string conversion: value has 4301 digits; use sys.set_int_max_str_digits() to increase the limit'')"
proof -
  have runs: "findall_digits (''Eth'' @ replicate 4301 (CHR ''1'')) = [replicate 4301 (CHR ''1'')]"
    by (rule findall_digits_Eth_replicate) (simp_all add: is_digit_def)
  have n: "string_of_nat 4300 = ''4300''" "string_of_nat 4301 = ''4301''"
    by (simp_all add: string_of_nat.simps)
  have "interface_sort_key 4300 (''Eth'' @ replicate 4301 (CHR ''1''))
     = Inl (ValueError ''Exceeds the limit (4300 digits) for integer string conversion: value has 4301 digits; use sys.set_int_max_str_digits() to increase the limit'')"
    unfolding interface_sort_key_def runs
    by (simp add: int_of_digits_def exceeds_limit_def n)
  then show ?thesis
    by (simp add: sort_eth_interfaces_def)
qed

subsection \<open>Projection\<close>

lemma findall_digits_aux_Nil:
  "findall_digits_aux cur s = [] \<longleftrightarrow> cur = [] \<and> \<not> has_digit s"
  by (induction s arbitrary: cur) (auto simp: has_digit_def)

lemma findall_digits_Nil: "findall_digits s = [] \<longleftrightarrow> \<not> has_digit s"
  by (simp add: findall_digits_def findall_digits_aux_Nil)

lemma first_port_number_digitless:
  "\<not> has_digit port \<Longrightarrow> first_port_number mx port = Inl IndexError"
  by (simp add: first_port_number_def findall_digits_Nil [symmetric])

lemma first_port_number_Inr_has_digit:
  "first_port_number mx port = Inr n \<Longrightarrow> has_digit port"
  using first_port_number_digitless [of port mx] by auto

lemma first_port_number_accepted:
  assumes "has_digit port" "runs_accepted mx port"
  shows "\<exists>n. first_port_number mx port = Inr n"
proof -
  from assms(1) obtain part parts where runs: "findall_digits port = part # parts"
    using findall_digits_Nil [of port] by (cases "findall_digits port") auto
  with assms(2) have "\<not> exceeds_limit mx part"
    by (simp add: runs_accepted_def findall_digits_maximal_runs [symmetric])
  then show ?thesis
    by (simp add: first_port_number_def runs int_of_digits_def)
qed

lemma not_truthy_not_too_large: "\<not> truthy r \<Longrightarrow> \<not> too_large_for_float r"
  by (cases r) (simp_all add: truthy_def too_large_for_float_def)

lemma scale_rate_ok_iff: "(\<exists>v. scale_rate r = Inr v) \<longleftrightarrow> \<not> too_large_for_float r"
  using not_truthy_not_too_large [of r]
  by (auto simp: scale_rate_def true_div_million_def)

lemma scale_rate_zero: "\<not> truthy r \<Longrightarrow> scale_rate r = Inr 0"
  by (simp add: scale_rate_def)

lemma map_result_same_error:
  assumes "\<forall>x \<in> set xs. f x = Inl e \<or> (\<exists>y. f x = Inr y)" "\<exists>x \<in> set xs. f x = Inl e"
  shows "map_result f xs = Inl e"
  using assms
proof (induction xs)
  case Nil
  then show ?case by simp
next
  case (Cons a xs)
  show ?case
  proof (cases "f a")
    case (Inl e')
    with Cons.prems(1) have "e' = e" by auto
    with Inl show ?thesis by simp
  next
    case (Inr y)
    with Cons.prems have "map_result f xs = Inl e"
      by (intro Cons.IH) auto
    with Inr show ?thesis by simp
  qed
qed

lemma map_result_ok_iff:
  "(\<exists>ys. map_result f xs = Inr ys) \<longleftrightarrow> (\<forall>x \<in> set xs. \<exists>y. f x = Inr y)"
  using map_result_total [of xs f] map_result_Inr_set [of f xs] by blast

lemma prepare_interface_data_Inr:
  assumes "prepare_interface_data mx xs = Inr s"
  shows "labels s = map fst xs"
    and "map_result (first_port_number mx) (map fst xs) = Inr (port_numbers s)"
    and "map_result (\<lambda>x. scale_rate (inBpsRate (snd x))) xs = Inr (in_bps_data s)"
    and "map_result (\<lambda>x. scale_rate (outBpsRate (snd x))) xs = Inr (out_bps_data s)"
    and "in_errors_data s = map (\<lambda>x. inErrors (snd x)) xs"
    and "out_errors_data s = map (\<lambda>x. outErrors (snd x)) xs"
    and "frame_too_longs_data s = map (\<lambda>x. frameTooLongs (snd x)) xs"
    and "frame_too_shorts_data s = map (\<lambda>x. frameTooShorts (snd x)) xs"
    and "fcs_errors_data s = map (\<lambda>x. fcsErrors (snd x)) xs"
    and "alignment_errors_data s = map (\<lambda>x. alignmentErrors (snd x)) xs"
    and "symbol_errors_data s = map (\<lambda>x. symbolErrors (snd x)) xs"
    and "total_errors_data s = map (\<lambda>x. totalErrors (snd x)) xs"
  using assms
  by (auto simp: prepare_interface_data_def Let_def result_bind_def case_prod_unfold
      split: sum.splits)

lemma prepare_interface_data_ok_iff:
  "(\<exists>s. prepare_interface_data mx xs = Inr s) \<longleftrightarrow>
     (\<forall>x \<in> set xs. (\<exists>n. first_port_number mx (fst x) = Inr n)
        \<and> \<not> too_large_for_float (inBpsRate (snd x)) \<and> \<not> too_large_for_float (outBpsRate (snd x)))"
proof -
  have "(\<exists>s. prepare_interface_data mx xs = Inr s) \<longleftrightarrow>
      (\<exists>ns. map_result (first_port_number mx) (map fst xs) = Inr ns)
    \<and> (\<exists>ins. map_result (\<lambda>x. scale_rate (inBpsRate (snd x))) xs = Inr ins)
    \<and> (\<exists>outs. map_result (\<lambda>x. scale_rate (outBpsRate (snd x))) xs = Inr outs)"
    by (auto simp: prepare_interface_data_def Let_def result_bind_def case_prod_unfold
        split: sum.splits)
  then show ?thesis
    by (simp add: map_result_ok_iff scale_rate_ok_iff) blast
qed

lemma set_sort_eth_interfaces:
  "sort_eth_interfaces mx m = Inr ys \<Longrightarrow> set ys = {x \<in> set m. starts_with_Eth x}"
  by (auto dest!: sort_eth_interfaces_Inr)

lemma prepare_after_sort_IndexError:
  assumes sorted: "sort_eth_interfaces mx m = Inr ys"
    and digitless: "\<exists>(port, data) \<in> set m. prefix ''Eth'' port \<and> \<not> has_digit port"
  shows "prepare_interface_data mx ys = Inl IndexError"
proof -
  have ys: "set ys = {x \<in> set m. starts_with_Eth x}"
    by (rule set_sort_eth_interfaces [OF sorted])
  from sorted have accepted: "\<forall>x \<in> set m. starts_with_Eth x \<longrightarrow> runs_accepted mx (fst x)"
    using sort_eth_interfaces_ok_iff [of mx m] by blast
  have "first_port_number mx (fst x) = Inl IndexError
      \<or> (\<exists>n. first_port_number mx (fst x) = Inr n)" if "x \<in> set ys" for x
  proof (cases "has_digit (fst x)")
    case True
    moreover from that accepted have "runs_accepted mx (fst x)"
      by (simp add: ys)
    ultimately show ?thesis
      using first_port_number_accepted by blast
  next
    case False
    then show ?thesis
      by (simp add: first_port_number_digitless)
  qed
  then have "\<forall>port \<in> set (map fst ys). first_port_number mx port = Inl IndexError
      \<or> (\<exists>n. first_port_number mx port = Inr n)"
    by auto
  moreover have "\<exists>port \<in> set (map fst ys). first_port_number mx port = Inl IndexError"
    using digitless first_port_number_digitless [of _ mx]
    by (fastforce simp: ys starts_with_Eth_def)
  ultimately have "map_result (first_port_number mx) (map fst ys) = Inl IndexError"
    by (rule map_result_same_error)
  then show ?thesis
    by (simp add: prepare_interface_data_def Let_def result_bind_def)
qed

lemma number_eval:
  "first_port_number mx ''Eth1'' = Inr 1" "first_port_number mx ''Eth2'' = Inr 2"
  "first_port_number mx ''Eth5'' = Inr 5" "first_port_number mx ''Eth12/3'' = Inr 12"
  "interface_sort_key mx ''Eth1'' = Inr [1]" "interface_sort_key mx ''Eth2'' = Inr [2]"
  "interface_sort_key mx ''Eth'' = Inr []" "first_port_number mx ''Eth'' = Inl IndexError"
  by (simp_all add: first_port_number_def interface_sort_key_def findall_digits_def is_digit_def
      int_of_digits_def exceeds_limit_def horner_value_def digit_value_def)

lemma small_rate_not_too_large:
  assumes "\<bar>n\<bar> \<le> 1000000000000"
  shows "\<not> too_large_for_float (PyInt n)"
proof -
  have "\<bar>rat_of_int n / 1000000\<bar> = rat_of_int \<bar>n\<bar> / 1000000"
    by simp
  also have "\<dots> \<le> rat_of_int 1000000000000 / 1000000"
  proof (rule divide_right_mono)
    from assms show "rat_of_int \<bar>n\<bar> \<le> rat_of_int 1000000000000"
      by (simp only: of_int_le_iff)
  qed simp
  also have "\<dots> < 2 ^ 1024 - 2 ^ 970"
    by simp
  finally show ?thesis
    by (simp add: too_large_for_float_def)
qed

lemma scale_rate_small:
  "\<bar>n\<bar> \<le> 1000000000000 \<Longrightarrow>
   scale_rate (PyInt n) = Inr (if n = 0 then 0 else rat_of_int n / 1000000)"
  by (simp add: scale_rate_def truthy_def true_div_million_def small_rate_not_too_large)

lemma scale_rate_float:
  "scale_rate (PyFloat f) = Inr (if f = 0 then 0 else f / 1000000)"
  by (simp add: scale_rate_def truthy_def true_div_million_def too_large_for_float_def)

lemma large_rate_too_large:
  assumes "2 ^ 1044 \<le> n"
  shows "too_large_for_float (PyInt n)"
proof -
  have "(2::rat) ^ 1024 - 2 ^ 970 \<le> 2 ^ 1024"
    by simp
  also have "(2::rat) ^ 1024 = 2 ^ 1044 / 2 ^ 20"
    by (simp add: power_diff)
  also have "\<dots> \<le> 2 ^ 1044 / 1000000"
    by (intro divide_left_mono) simp_all
  also from assms have "\<dots> \<le> rat_of_int n / 1000000"
    by (intro divide_right_mono) (simp_all add: of_int_power_le_of_int_cancel_iff [symmetric] del: of_int_power_le_of_int_cancel_iff)
  also have "\<dots> \<le> \<bar>rat_of_int n / 1000000\<bar>"
    by simp
  finally show ?thesis
    by (simp add: too_large_for_float_def)
qed

lemma scale_rate_large:
  "too_large_for_float (PyInt (2 ^ 1044))"
  "scale_rate (PyInt (2 ^ 1044)) = Inl (OverflowError ''integer division result too large for a float'')"
proof -
  show large: "too_large_for_float (PyInt (2 ^ 1044))"
    by (rule large_rate_too_large) (rule order_refl)
  have "truthy (PyInt (2 ^ 1044))"
    unfolding truthy_def by (simp only: py_num.case power_not_zero [of "2::int"], simp)
  with large show "scale_rate (PyInt (2 ^ 1044))
      = Inl (OverflowError ''integer division result too large for a float'')"
    by (simp only: scale_rate_def true_div_million_def if_True)
qed

lemma idle_rates:
  "scale_rate (inBpsRate idle_port) = Inr 0" "scale_rate (outBpsRate idle_port) = Inr 0"
  "\<not> too_large_for_float (inBpsRate idle_port)" "\<not> too_large_for_float (outBpsRate idle_port)"
  by (simp_all add: scale_rate_small small_rate_not_too_large idle_port_def)

text \<open>
  C4 (as amended). A port whose canonical name has no decimal digit is left out of the
  numeric projection only when the name does not start with \<open>Eth\<close>: the prefix filter of the
  ordering step drops it. When some port whose name starts with \<open>Eth\<close> has no digit, ordering
  followed by projection raises and produces no series; the projection raises \<open>IndexError\<close>
  whenever the ordering step itself returns. A series is produced exactly when every name that
  starts with \<open>Eth\<close> has a digit, \<open>int\<close> accepts every digit run of these names, and no rate of
  these ports is an integer too large to divide into a double; its labels are then exactly
  the names that start with \<open>Eth\<close>.
\<close>

theorem digitless_eth_port_raises:
  "((\<exists>(port, data) \<in> set m. prefix ''Eth'' port \<and> \<not> has_digit port) \<longrightarrow>
       (\<exists>e. ordered_port_series max_str_digits m = Inl e)
     \<and> (\<forall>ys. sort_eth_interfaces max_str_digits m = Inr ys
           \<longrightarrow> prepare_interface_data max_str_digits ys = Inl IndexError))
   \<and> ((\<exists>s. ordered_port_series max_str_digits m = Inr s) \<longleftrightarrow>
       (\<forall>(port, data) \<in> set m. prefix ''Eth'' port \<longrightarrow>
          has_digit port \<and> runs_accepted max_str_digits port
        \<and> \<not> too_large_for_float (inBpsRate data) \<and> \<not> too_large_for_float (outBpsRate data)))
   \<and> (ordered_port_series max_str_digits m = Inr s
        \<longrightarrow> set (labels s) = {port \<in> fst ` set m. prefix ''Eth'' port})"
proof (intro conjI impI allI)
  let ?mx = max_str_digits
  have success: "(\<exists>s. ordered_port_series ?mx m = Inr s) \<longleftrightarrow>
       (\<forall>(port, data) \<in> set m. prefix ''Eth'' port \<longrightarrow>
          has_digit port \<and> runs_accepted ?mx port
        \<and> \<not> too_large_for_float (inBpsRate data) \<and> \<not> too_large_for_float (outBpsRate data))"
    (is "?L \<longleftrightarrow> ?R")
  proof
    assume ?L
    then obtain ys s where sorted: "sort_eth_interfaces ?mx m = Inr ys"
      and prep: "prepare_interface_data ?mx ys = Inr s"
      by (auto simp: ordered_port_series_def result_bind_def split: sum.splits)
    have ys: "set ys = {x \<in> set m. starts_with_Eth x}"
      by (rule set_sort_eth_interfaces [OF sorted])
    from sorted have accepted: "\<forall>x \<in> set m. starts_with_Eth x \<longrightarrow> runs_accepted ?mx (fst x)"
      using sort_eth_interfaces_ok_iff [of ?mx m] by blast
    from prep have "\<forall>x \<in> set ys. (\<exists>n. first_port_number ?mx (fst x) = Inr n)
        \<and> \<not> too_large_for_float (inBpsRate (snd x)) \<and> \<not> too_large_for_float (outBpsRate (snd x))"
      using prepare_interface_data_ok_iff [of ?mx ys] by blast
    with accepted show ?R
      by (auto simp: ys starts_with_Eth_def dest: first_port_number_Inr_has_digit)
  next
    assume r: ?R
    then have "\<forall>x \<in> set m. starts_with_Eth x \<longrightarrow> runs_accepted ?mx (fst x)"
      by (auto simp: starts_with_Eth_def)
    then obtain ys where sorted: "sort_eth_interfaces ?mx m = Inr ys"
      using sort_eth_interfaces_ok_iff [of ?mx m] by blast
    have ys: "set ys = {x \<in> set m. starts_with_Eth x}"
      by (rule set_sort_eth_interfaces [OF sorted])
    from r have "\<forall>x \<in> set ys. (\<exists>n. first_port_number ?mx (fst x) = Inr n)
        \<and> \<not> too_large_for_float (inBpsRate (snd x)) \<and> \<not> too_large_for_float (outBpsRate (snd x))"
      using first_port_number_accepted [of _ ?mx]
      by (auto simp: ys starts_with_Eth_def)
    then obtain s where "prepare_interface_data ?mx ys = Inr s"
      using prepare_interface_data_ok_iff [of ?mx ys] by blast
    with sorted show ?L
      by (auto simp: ordered_port_series_def result_bind_def)
  qed
  show "?L \<longleftrightarrow> ?R"
    by (rule success)
  {
    assume digitless: "\<exists>(port, data) \<in> set m. prefix ''Eth'' port \<and> \<not> has_digit port"
    then have "\<not> (\<exists>s. ordered_port_series ?mx m = Inr s)"
      unfolding success by blast
    then show "\<exists>e. ordered_port_series ?mx m = Inl e"
      by (cases "ordered_port_series ?mx m") auto
    fix ys assume "sort_eth_interfaces ?mx m = Inr ys"
    then show "prepare_interface_data ?mx ys = Inl IndexError"
      using digitless by (rule prepare_after_sort_IndexError)
  }
  assume "ordered_port_series ?mx m = Inr s"
  then obtain ys where sorted: "sort_eth_interfaces ?mx m = Inr ys"
    and prep: "prepare_interface_data ?mx ys = Inr s"
    by (auto simp: ordered_port_series_def result_bind_def split: sum.splits)
  have "set (labels s) = fst ` set ys"
    by (simp add: prepare_interface_data_Inr(1) [OF prep])
  also have "\<dots> = {port \<in> fst ` set m. prefix ''Eth'' port}"
    unfolding set_sort_eth_interfaces [OF sorted] by (force simp: starts_with_Eth_def)
  finally show "set (labels s) = {port \<in> fst ` set m. prefix ''Eth'' port}" .
qed

theorem digitless_eth_port_raises_witness:
  "prefix ''Eth'' ''Eth'' \<and> \<not> has_digit ''Eth''
   \<and> sort_eth_interfaces 4300 [(''Eth1'', idle_port), (''Eth'', idle_port)]
       = Inr [(''Eth'', idle_port), (''Eth1'', idle_port)]
   \<and> prepare_interface_data 4300 [(''Eth'', idle_port), (''Eth1'', idle_port)] = Inl IndexError
   \<and> ordered_port_series 4300 [(''Eth1'', idle_port), (''Eth'', idle_port)] = Inl IndexError
   \<and> (\<exists>s. ordered_port_series 4300
          [(''Eth2'', idle_port), (''Vlan'', idle_port), (''Eth1'', idle_port)] = Inr s
        \<and> set (labels s) = {''Eth1'', ''Eth2''})
   \<and> too_large_for_float (PyInt (2 ^ 1044))
   \<and> ordered_port_series 4300 [(''Eth1'', idle_port\<lparr>inBpsRate := PyInt (2 ^ 1044)\<rparr>)]
       = Inl (OverflowError ''integer division result too large for a float'')"
proof -
  let ?bad = "[(''Eth1'', idle_port), (''Eth'', idle_port)]"
  let ?good = "[(''Eth2'', idle_port), (''Vlan'', idle_port), (''Eth1'', idle_port)]"
  let ?big = "[(''Eth1'', idle_port\<lparr>inBpsRate := PyInt (2 ^ 1044)\<rparr>)]"
  have digits: "\<not> has_digit ''Eth''" "has_digit ''Eth1''" "has_digit ''Eth2''"
    by (simp_all add: has_digit_def is_digit_def)
  have accepted: "runs_accepted 4300 ''Eth1''" "runs_accepted 4300 ''Eth2''"
    using interface_sort_key_ok_iff [of 4300 "''Eth1''"] interface_sort_key_ok_iff [of 4300 "''Eth2''"]
    by (simp_all add: number_eval)
  have digitless: "\<exists>(port, data) \<in> set ?bad. prefix ''Eth'' port \<and> \<not> has_digit port"
    by (simp add: digits)
  have sorted: "sort_eth_interfaces 4300 ?bad = Inr [(''Eth'', idle_port), (''Eth1'', idle_port)]"
    by (simp add: sort_eth_interfaces_def number_eval)
  from digitless_eth_port_raises [of ?bad 4300] digitless sorted
  have raises: "prepare_interface_data 4300 [(''Eth'', idle_port), (''Eth1'', idle_port)] = Inl IndexError"
    by blast
  with sorted have series: "ordered_port_series 4300 ?bad = Inl IndexError"
    by (simp add: ordered_port_series_def result_bind_def)
  have "\<forall>(port, data) \<in> set ?good. prefix ''Eth'' port \<longrightarrow>
          has_digit port \<and> runs_accepted 4300 port
        \<and> \<not> too_large_for_float (inBpsRate data) \<and> \<not> too_large_for_float (outBpsRate data)"
    by (simp add: digits accepted idle_rates)
  with digitless_eth_port_raises [of ?good 4300] obtain s where s: "ordered_port_series 4300 ?good = Inr s"
    by blast
  with digitless_eth_port_raises [of ?good 4300 s]
  have "set (labels s) = {port \<in> fst ` set ?good. prefix ''Eth'' port}"
    by blast
  moreover have "{port \<in> fst ` set ?good. prefix ''Eth'' port} = {''Eth1'', ''Eth2''}"
    by auto
  ultimately have good: "\<exists>s. ordered_port_series 4300 ?good = Inr s
        \<and> set (labels s) = {''Eth1'', ''Eth2''}"
    using s by auto
  note large = scale_rate_large(1)
  have "sort_eth_interfaces 4300 ?big = Inr ?big"
    by (simp add: sort_eth_interfaces_def number_eval)
  moreover have "prepare_interface_data 4300 ?big
      = Inl (OverflowError ''integer division result too large for a float'')"
    by (simp add: prepare_interface_data_def result_bind_def number_eval scale_rate_large(2)
        del: power_numeral)
  ultimately have big: "ordered_port_series 4300 ?big
      = Inl (OverflowError ''integer division result too large for a float'')"
    by (simp add: ordered_port_series_def result_bind_def)
  from digits sorted raises series good large big show ?thesis
    by blast
qed

text \<open>
  The claim as first stated fails: the rate entry \<open>Ethernet\<close> becomes the port \<open>Eth\<close>, which the
  filter keeps, and the projection raises instead of leaving the port out.
\<close>

theorem digitless_port_not_excluded_counterexample:
  "get_interface_counters_from
      [(''Ethernet'', \<lparr>rd_description = None, rd_outBpsRate = None, rd_inBpsRate = None\<rparr>)] Map.empty
     = [(''Eth'', idle_port)]
   \<and> \<not> has_digit ''Eth''
   \<and> ordered_port_series 4300 (get_interface_counters_from
      [(''Ethernet'', \<lparr>rd_description = None, rd_outBpsRate = None, rd_inBpsRate = None\<rparr>)] Map.empty)
     = Inl IndexError"
proof -
  have 1: "get_interface_counters_from
      [(''Ethernet'', \<lparr>rd_description = None, rd_outBpsRate = None, rd_inBpsRate = None\<rparr>)] Map.empty
     = [(''Eth'', idle_port)]"
    by (simp add: get_interface_counters_from_def counters_step_def combine_def
        error_entry_def get_int_def replace_Ethernet.simps idle_port_def)
  have 2: "\<not> has_digit ''Eth''"
    by (simp add: has_digit_def is_digit_def)
  have 3: "ordered_port_series 4300 [(''Eth'', idle_port)] = Inl IndexError"
    by (simp add: ordered_port_series_def sort_eth_interfaces_def prepare_interface_data_def
        result_bind_def number_eval)
  from 1 2 3 show ?thesis
    by simp
qed

text \<open>
  C7. Whenever the projection produces an Ordered Port Series, its twelve sequences (labels,
  port numbers, the two rate arrays and the eight error arrays) all have the length of the
  list of ordered ports, and at every index each sequence holds the value derived from the
  port at that index: its name, the first number in its name, its scaled rates and its eight
  counters.
\<close>

theorem series_sequences_aligned:
  assumes "prepare_interface_data max_str_digits xs = Inr s"
  shows "length (labels s) = length xs \<and> length (port_numbers s) = length xs
    \<and> length (in_bps_data s) = length xs \<and> length (out_bps_data s) = length xs
    \<and> length (in_errors_data s) = length xs \<and> length (out_errors_data s) = length xs
    \<and> length (frame_too_longs_data s) = length xs \<and> length (frame_too_shorts_data s) = length xs
    \<and> length (fcs_errors_data s) = length xs \<and> length (alignment_errors_data s) = length xs
    \<and> length (symbol_errors_data s) = length xs \<and> length (total_errors_data s) = length xs
    \<and> (\<forall>i < length xs.
          labels s ! i = fst (xs ! i)
        \<and> first_port_number max_str_digits (fst (xs ! i)) = Inr (port_numbers s ! i)
        \<and> scale_rate (inBpsRate (snd (xs ! i))) = Inr (in_bps_data s ! i)
        \<and> scale_rate (outBpsRate (snd (xs ! i))) = Inr (out_bps_data s ! i)
        \<and> in_errors_data s ! i = inErrors (snd (xs ! i))
        \<and> out_errors_data s ! i = outErrors (snd (xs ! i))
        \<and> frame_too_longs_data s ! i = frameTooLongs (snd (xs ! i))
        \<and> frame_too_shorts_data s ! i = frameTooShorts (snd (xs ! i))
        \<and> fcs_errors_data s ! i = fcsErrors (snd (xs ! i))
        \<and> alignment_errors_data s ! i = alignmentErrors (snd (xs ! i))
        \<and> symbol_errors_data s ! i = symbolErrors (snd (xs ! i))
        \<and> total_errors_data s ! i = totalErrors (snd (xs ! i)))"
proof -
  note d = prepare_interface_data_Inr [OF assms]
  from d(2) have numbers: "length (port_numbers s) = length xs"
    "\<And>i. i < length xs \<Longrightarrow> first_port_number max_str_digits (fst (xs ! i)) = Inr (port_numbers s ! i)"
    by (auto simp: map_result_Inr_iff list_all2_conv_all_nth)
  from d(3) have ins: "length (in_bps_data s) = length xs"
    "\<And>i. i < length xs \<Longrightarrow> scale_rate (inBpsRate (snd (xs ! i))) = Inr (in_bps_data s ! i)"
    by (auto simp: map_result_Inr_iff list_all2_conv_all_nth)
  from d(4) have outs: "length (out_bps_data s) = length xs"
    "\<And>i. i < length xs \<Longrightarrow> scale_rate (outBpsRate (snd (xs ! i))) = Inr (out_bps_data s ! i)"
    by (auto simp: map_result_Inr_iff list_all2_conv_all_nth)
  show ?thesis
    by (simp add: d(1) d(5-12) numbers ins outs)
qed

theorem series_sequences_aligned_witness:
  "prepare_interface_data 4300
      [(''Eth1'', idle_port\<lparr>inBpsRate := PyInt 3000000, inErrors := 4, totalErrors := 4\<rparr>),
       (''Eth12/3'', idle_port\<lparr>outBpsRate := PyFloat 500000\<rparr>)]
     = Inr \<lparr> labels = [''Eth1'', ''Eth12/3''], port_numbers = [1, 12],
             in_bps_data = [3, 0], out_bps_data = [0, 1 / 2],
             in_errors_data = [4, 0], out_errors_data = [0, 0],
             frame_too_longs_data = [0, 0], frame_too_shorts_data = [0, 0],
             fcs_errors_data = [0, 0], alignment_errors_data = [0, 0],
             symbol_errors_data = [0, 0], total_errors_data = [4, 0] \<rparr>
   \<and> length (port_numbers \<lparr> labels = [''Eth1'', ''Eth12/3''], port_numbers = [1, 12],
             in_bps_data = [3, 0], out_bps_data = [0, 1 / 2],
             in_errors_data = [4, 0], out_errors_data = [0, 0],
             frame_too_longs_data = [0, 0], frame_too_shorts_data = [0, 0],
             fcs_errors_data = [0, 0], alignment_errors_data = [0, 0],
             symbol_errors_data = [0, 0], total_errors_data = [4, 0] \<rparr>)
       = length [(''Eth1'', idle_port\<lparr>inBpsRate := PyInt 3000000, inErrors := 4, totalErrors := 4\<rparr>),
       (''Eth12/3'', idle_port\<lparr>outBpsRate := PyFloat 500000\<rparr>)]"
proof -
  let ?xs = "[(''Eth1'', idle_port\<lparr>inBpsRate := PyInt 3000000, inErrors := 4, totalErrors := 4\<rparr>),
       (''Eth12/3'', idle_port\<lparr>outBpsRate := PyFloat 500000\<rparr>)]"
  let ?s = "\<lparr> labels = [''Eth1'', ''Eth12/3''], port_numbers = [1, 12],
             in_bps_data = [3, 0], out_bps_data = [0, 1 / 2],
             in_errors_data = [4, 0], out_errors_data = [0, 0],
             frame_too_longs_data = [0, 0], frame_too_shorts_data = [0, 0],
             fcs_errors_data = [0, 0], alignment_errors_data = [0, 0],
             symbol_errors_data = [0, 0], total_errors_data = [4, 0] \<rparr>"
  have run: "prepare_interface_data 4300 ?xs = Inr ?s"
    by (simp add: prepare_interface_data_def result_bind_def number_eval scale_rate_small
        scale_rate_float idle_port_def)
  from series_sequences_aligned [OF run] have "length (port_numbers ?s) = length ?xs"
    by blast
  with run show ?thesis
    by blast
qed

text \<open>
  C8. For the rate input \<open>{"Ethernet1": {"inBpsRate": 2000000, "outBpsRate": 1000000,
  "description": "uplink"}}\<close> and any error mapping without an entry for \<open>Ethernet1\<close>,
  normalization gives one record under the label \<open>Eth1\<close> with all seven error fields and
  \<open>totalErrors\<close> zero, and ordering followed by projection gives the label \<open>Eth1\<close>, the
  inbound rate 2, the outbound rate 1 and zeros in the eight error arrays. In every series
  the projection produces, a port with rate zero (the integer 0 or the double 0.0) has the
  entry 0 at its index of the rate array: the entry is present, not left out.
\<close>

theorem scenario_uplink_and_zero_rate:
  "(interfaces_errors ''Ethernet1'' = None \<longrightarrow>
      get_interface_counters_from
        [(''Ethernet1'', \<lparr>rd_description = Some ''uplink'', rd_outBpsRate = Some (PyInt 1000000),
                          rd_inBpsRate = Some (PyInt 2000000)\<rparr>)] interfaces_errors
      = [(''Eth1'', \<lparr> description = ''uplink'', outBpsRate = PyInt 1000000,
            inBpsRate = PyInt 2000000, totalErrors = 0, inErrors = 0, outErrors = 0,
            frameTooLongs = 0, frameTooShorts = 0, fcsErrors = 0, alignmentErrors = 0,
            symbolErrors = 0 \<rparr>)]
    \<and> ordered_port_series max_str_digits (get_interface_counters_from
        [(''Ethernet1'', \<lparr>rd_description = Some ''uplink'', rd_outBpsRate = Some (PyInt 1000000),
                          rd_inBpsRate = Some (PyInt 2000000)\<rparr>)] interfaces_errors)
      = Inr \<lparr> labels = [''Eth1''], port_numbers = [1], in_bps_data = [2], out_bps_data = [1],
              in_errors_data = [0], out_errors_data = [0], frame_too_longs_data = [0],
              frame_too_shorts_data = [0], fcs_errors_data = [0], alignment_errors_data = [0],
              symbol_errors_data = [0], total_errors_data = [0] \<rparr>)
   \<and> (prepare_interface_data max_str_digits xs = Inr s \<longrightarrow>
        length (in_bps_data s) = length xs \<and> length (out_bps_data s) = length xs
      \<and> (\<forall>i < length xs.
            (\<not> truthy (inBpsRate (snd (xs ! i))) \<longrightarrow> in_bps_data s ! i = 0)
          \<and> (\<not> truthy (outBpsRate (snd (xs ! i))) \<longrightarrow> out_bps_data s ! i = 0)))
   \<and> \<not> truthy (PyInt 0) \<and> \<not> truthy (PyFloat 0)"
proof (intro conjI impI)
  let ?rates = "[(''Ethernet1'', \<lparr>rd_description = Some ''uplink'', rd_outBpsRate = Some (PyInt 1000000),
                          rd_inBpsRate = Some (PyInt 2000000)\<rparr>)]"
  let ?c = "\<lparr> description = ''uplink'', outBpsRate = PyInt 1000000,
            inBpsRate = PyInt 2000000, totalErrors = 0, inErrors = 0, outErrors = 0,
            frameTooLongs = 0, frameTooShorts = 0, fcsErrors = 0, alignmentErrors = 0,
            symbolErrors = 0 \<rparr>"
  assume absent: "interfaces_errors ''Ethernet1'' = None"
  then show norm: "get_interface_counters_from ?rates interfaces_errors = [(''Eth1'', ?c)]"
    by (simp add: get_interface_counters_from_def counters_step_def combine_def
        error_entry_def get_int_def replace_Ethernet.simps)
  have sorted: "sort_eth_interfaces max_str_digits [(''Eth1'', ?c)] = Inr [(''Eth1'', ?c)]"
    by (simp add: sort_eth_interfaces_def number_eval)
  show "ordered_port_series max_str_digits (get_interface_counters_from ?rates interfaces_errors)
      = Inr \<lparr> labels = [''Eth1''], port_numbers = [1], in_bps_data = [2], out_bps_data = [1],
              in_errors_data = [0], out_errors_data = [0], frame_too_longs_data = [0],
              frame_too_shorts_data = [0], fcs_errors_data = [0], alignment_errors_data = [0],
              symbol_errors_data = [0], total_errors_data = [0] \<rparr>"
    unfolding norm ordered_port_series_def sorted
    by (simp add: prepare_interface_data_def result_bind_def number_eval scale_rate_small)
next
  assume run: "prepare_interface_data max_str_digits xs = Inr s"
  note d = prepare_interface_data_Inr [OF run]
  from d(3) have ins: "length (in_bps_data s) = length xs"
    "\<And>i. i < length xs \<Longrightarrow> scale_rate (inBpsRate (snd (xs ! i))) = Inr (in_bps_data s ! i)"
    by (auto simp: map_result_Inr_iff list_all2_conv_all_nth)
  from d(4) have outs: "length (out_bps_data s) = length xs"
    "\<And>i. i < length xs \<Longrightarrow> scale_rate (outBpsRate (snd (xs ! i))) = Inr (out_bps_data s ! i)"
    by (auto simp: map_result_Inr_iff list_all2_conv_all_nth)
  show "length (in_bps_data s) = length xs" "length (out_bps_data s) = length xs"
    by (rule ins(1), rule outs(1))
  show "\<forall>i < length xs.
            (\<not> truthy (inBpsRate (snd (xs ! i))) \<longrightarrow> in_bps_data s ! i = 0)
          \<and> (\<not> truthy (outBpsRate (snd (xs ! i))) \<longrightarrow> out_bps_data s ! i = 0)"
    using ins(2) outs(2) scale_rate_zero by fastforce
next
  show "\<not> truthy (PyInt 0)" "\<not> truthy (PyFloat 0)"
    by (simp_all add: truthy_def)
qed

theorem scenario_uplink_and_zero_rate_witness:
  "[''Ethernet2'' \<mapsto> [''inErrors'' \<mapsto> (7::int)]] ''Ethernet1'' = None
   \<and> ordered_port_series 4300 (get_interface_counters_from
        [(''Ethernet1'', \<lparr>rd_description = Some ''uplink'', rd_outBpsRate = Some (PyInt 1000000),
                          rd_inBpsRate = Some (PyInt 2000000)\<rparr>)] [''Ethernet2'' \<mapsto> [''inErrors'' \<mapsto> 7]])
      = Inr \<lparr> labels = [''Eth1''], port_numbers = [1], in_bps_data = [2], out_bps_data = [1],
              in_errors_data = [0], out_errors_data = [0], frame_too_longs_data = [0],
              frame_too_shorts_data = [0], fcs_errors_data = [0], alignment_errors_data = [0],
              symbol_errors_data = [0], total_errors_data = [0] \<rparr>
   \<and> prepare_interface_data 4300 [(''Eth5'', idle_port)]
      = Inr \<lparr> labels = [''Eth5''], port_numbers = [5], in_bps_data = [0], out_bps_data = [0],
              in_errors_data = [0], out_errors_data = [0], frame_too_longs_data = [0],
              frame_too_shorts_data = [0], fcs_errors_data = [0], alignment_errors_data = [0],
              symbol_errors_data = [0], total_errors_data = [0] \<rparr>
   \<and> \<not> truthy (inBpsRate (snd ([(''Eth5'', idle_port)] ! 0)))"
proof -
  let ?errs = "[''Ethernet2'' \<mapsto> [''inErrors'' \<mapsto> (7::int)]]"
  let ?xs = "[(''Eth5'', idle_port)]"
  let ?s = "\<lparr> labels = [''Eth5''], port_numbers = [5], in_bps_data = [0], out_bps_data = [0],
              in_errors_data = [0], out_errors_data = [0], frame_too_longs_data = [0],
              frame_too_shorts_data = [0], fcs_errors_data = [0], alignment_errors_data = [0],
              symbol_errors_data = [0], total_errors_data = [0] \<rparr>"
  have absent: "?errs ''Ethernet1'' = None"
    by simp
  have run: "prepare_interface_data 4300 ?xs = Inr ?s"
    by (simp add: prepare_interface_data_def result_bind_def number_eval scale_rate_small
        idle_port_def)
  have zero: "\<not> truthy (inBpsRate (snd (?xs ! 0)))"
    by (simp add: idle_port_def truthy_def)
  from scenario_uplink_and_zero_rate [of ?errs 4300 ?xs ?s] absent run zero show ?thesis
    by blast
qed

subsection \<open>Text Table Parser\<close>

lemma get_environment_info_from_cases:
  "get_environment_info_from env_info =
     (case messages env_info of
        None \<Rightarrow> Inr sentinel_snapshot
      | Some [] \<Rightarrow> Inr sentinel_snapshot
      | Some (message_str # others) \<Rightarrow> Inr (snapshot_of (parse_lines (splitlines message_str))))"
  by (simp add: get_environment_info_from_def getitem_def split: option.splits list.splits)

lemma process_line_unrecognized:
  assumes "cooling_match (strip raw) = None" "temp_match (strip raw) = None"
    "airflow_match (strip raw) = None" "\<not> fan_header (strip raw)" "\<not> power_header (strip raw)"
    "parsing_fan st \<longrightarrow> fan_match (strip raw) = None"
    "parsing_power st \<longrightarrow> power_match (strip raw) = None"
  shows "process_line st raw = st"
  using assms by (simp add: process_line_def Let_def)

text \<open>
  C5. The Text Table Parser is total: for every response object it returns an
  EnvironmentSnapshot and raises nothing (the index \<open>messages[0]\<close> is only reached for a
  non-empty list). When the \<open>messages\<close> field is absent or empty the result is the
  all-sentinel snapshot, so running the parser again on such a response gives the identical
  snapshot. A line that matches none of the patterns tried in the current mode leaves the
  parser state unchanged: it is skipped.
\<close>

theorem parser_total_and_sentinel:
  "(\<exists>snap. get_environment_info_from env_info = Inr snap)
   \<and> (messages env_info = None \<or> messages env_info = Some []
        \<longrightarrow> get_environment_info_from env_info = Inr sentinel_snapshot)
   \<and> (cooling_match (strip raw) = None \<and> temp_match (strip raw) = None
        \<and> airflow_match (strip raw) = None \<and> \<not> fan_header (strip raw)
        \<and> \<not> power_header (strip raw)
        \<and> (parsing_fan st \<longrightarrow> fan_match (strip raw) = None)
        \<and> (parsing_power st \<longrightarrow> power_match (strip raw) = None)
        \<longrightarrow> process_line st raw = st)"
proof (intro conjI impI)
  show "\<exists>snap. get_environment_info_from env_info = Inr snap"
    by (simp add: get_environment_info_from_cases split: option.splits list.splits)
  show "get_environment_info_from env_info = Inr sentinel_snapshot"
    if "messages env_info = None \<or> messages env_info = Some []"
    using that by (auto simp: get_environment_info_from_cases)
  show "process_line st raw = st"
    if "cooling_match (strip raw) = None \<and> temp_match (strip raw) = None
        \<and> airflow_match (strip raw) = None \<and> \<not> fan_header (strip raw)
        \<and> \<not> power_header (strip raw)
        \<and> (parsing_fan st \<longrightarrow> fan_match (strip raw) = None)
        \<and> (parsing_power st \<longrightarrow> power_match (strip raw) = None)"
    using that by (intro process_line_unrecognized) simp_all
qed

theorem parser_total_and_sentinel_witness:
  "get_environment_info_from
       \<lparr>interfaces = None, interfaceErrorCounters = None, messages = None, fqdn = None\<rparr>
     = Inr sentinel_snapshot
   \<and> get_environment_info_from
       \<lparr>interfaces = None, interfaceErrorCounters = None, messages = Some [], fqdn = None\<rparr>
     = Inr sentinel_snapshot
   \<and> fan_match (strip ''1/1  Ok  30  30'') = None
   \<and> process_line (initial_state\<lparr>parsing_fan := True\<rparr>) ''1/1  Ok  30  30''
     = initial_state\<lparr>parsing_fan := True\<rparr>"
proof -
  let ?absent = "\<lparr>interfaces = None, interfaceErrorCounters = None, messages = None, fqdn = None\<rparr>"
  let ?empty = "\<lparr>interfaces = None, interfaceErrorCounters = None, messages = Some [], fqdn = None\<rparr>"
  let ?raw = "''1/1  Ok  30  30''"
  let ?st = "initial_state\<lparr>parsing_fan := True\<rparr>"
  have s: "strip ?raw = ?raw"
    by (simp add: strip_def is_space_def)
  have none: "cooling_match ?raw = None" "temp_match ?raw = None" "airflow_match ?raw = None"
    "\<not> fan_header ?raw" "\<not> power_header ?raw"
    by (simp_all add: cooling_match_def temp_match_def airflow_match_def fan_header_def
        power_header_def re_lit_def)
  have fan: "fan_match ?raw = None"
    by (simp add: fan_match_def re_lit_def re_plus_def is_space_def is_word_def is_digit_def)
  have mode: "parsing_fan ?st" "\<not> parsing_power ?st"
    by (simp_all add: initial_state_def)
  from parser_total_and_sentinel [of ?absent ?raw ?st] have 1: "get_environment_info_from ?absent = Inr sentinel_snapshot"
    by simp
  from parser_total_and_sentinel [of ?empty ?raw ?st] have 2: "get_environment_info_from ?empty = Inr sentinel_snapshot"
    by simp
  from parser_total_and_sentinel [of ?absent ?raw ?st] have 3: "process_line ?st ?raw = ?st"
    unfolding s using none fan mode by blast
  from 1 2 3 fan s show ?thesis
    by simp
qed

lemma process_line_no_fan:
  assumes "\<not> fan_header (strip raw)" "\<not> parsing_fan st" "fan_status_list st = []"
  shows "\<not> parsing_fan (process_line st raw) \<and> fan_status_list (process_line st raw) = []"
  using assms by (simp add: process_line_def Let_def split: option.splits)

lemma process_line_no_power:
  assumes "\<not> power_header (strip raw)" "\<not> parsing_power st" "power_supply_status_list st = []"
  shows "\<not> parsing_power (process_line st raw) \<and> power_supply_status_list (process_line st raw) = []"
  using assms by (simp add: process_line_def Let_def split: option.splits)

lemma fold_no_fan:
  assumes "list_all (\<lambda>l. \<not> fan_header (strip l)) lines" "\<not> parsing_fan st" "fan_status_list st = []"
  shows "\<not> parsing_fan (fold (\<lambda>line st. process_line st line) lines st)
    \<and> fan_status_list (fold (\<lambda>line st. process_line st line) lines st) = []"
  using assms
proof (induction lines arbitrary: st)
  case Nil
  then show ?case by simp
next
  case (Cons l lines)
  from Cons.prems have "\<not> fan_header (strip l)" and rest: "list_all (\<lambda>l. \<not> fan_header (strip l)) lines"
    by simp_all
  from process_line_no_fan [OF this(1) Cons.prems(2,3)]
  have "\<not> parsing_fan (process_line st l)" "fan_status_list (process_line st l) = []"
    by simp_all
  from Cons.IH [OF rest this] show ?case
    by simp
qed

lemma fold_no_power:
  assumes "list_all (\<lambda>l. \<not> power_header (strip l)) lines" "\<not> parsing_power st"
    "power_supply_status_list st = []"
  shows "\<not> parsing_power (fold (\<lambda>line st. process_line st line) lines st)
    \<and> power_supply_status_list (fold (\<lambda>line st. process_line st line) lines st) = []"
  using assms
proof (induction lines arbitrary: st)
  case Nil
  then show ?case by simp
next
  case (Cons l lines)
  from Cons.prems have "\<not> power_header (strip l)"
    and rest: "list_all (\<lambda>l. \<not> power_header (strip l)) lines"
    by simp_all
  from process_line_no_power [OF this(1) Cons.prems(2,3)]
  have "\<not> parsing_power (process_line st l)" "power_supply_status_list (process_line st l) = []"
    by simp_all
  from Cons.IH [OF rest this] show ?case
    by simp
qed

lemma process_line_cooling_kept:
  "cooling_match (strip raw) = None \<Longrightarrow> cooling_status (process_line st raw) = cooling_status st"
  by (simp add: process_line_def Let_def split: option.splits)

lemma fold_cooling_kept:
  "list_all (\<lambda>l. cooling_match (strip l) = None) lines \<Longrightarrow>
   cooling_status (fold (\<lambda>line st. process_line st line) lines st) = cooling_status st"
  by (induction lines arbitrary: st) (simp_all add: process_line_cooling_kept)

lemma cooling_match_OK: "cooling_match ''System cooling status is: OK'' = Some ''OK''"
  by (simp add: cooling_match_def re_lit_def re_plus_def is_space_def is_word_def)

lemma process_line_cooling_OK:
  "strip raw = ''System cooling status is: OK'' \<Longrightarrow> cooling_status (process_line st raw) = ''OK''"
  by (simp add: process_line_def Let_def cooling_match_OK)


lemma snapshot_of_nonempty:
  "Fan_Status (snapshot_of st) \<noteq> []" "Power_Supply_Status (snapshot_of st) \<noteq> []"
  by (simp_all add: snapshot_of_def)

lemma snapshot_of_sentinel:
  "fan_status_list st = [] \<Longrightarrow> Fan_Status (snapshot_of st) = [''N/A'']"
  "power_supply_status_list st = [] \<Longrightarrow> Power_Supply_Status (snapshot_of st) = [''N/A'']"
  by (simp_all add: snapshot_of_def)

lemma parse_lines_no_fan:
  "list_all (\<lambda>l. \<not> fan_header (strip l)) lines \<Longrightarrow> fan_status_list (parse_lines lines) = []"
  using fold_no_fan [of lines initial_state]
  by (simp add: parse_lines_def initial_state_def)

lemma parse_lines_no_power:
  "list_all (\<lambda>l. \<not> power_header (strip l)) lines \<Longrightarrow>
   power_supply_status_list (parse_lines lines) = []"
  using fold_no_power [of lines initial_state]
  by (simp add: parse_lines_def initial_state_def)

lemma parse_lines_last_cooling_OK:
  assumes "lines = before @ l # after" "strip l = ''System cooling status is: OK''"
    "list_all (\<lambda>l'. cooling_match (strip l') = None) after"
  shows "cooling_status (parse_lines lines) = ''OK''"
  using assms
  by (simp add: parse_lines_def fold_cooling_kept process_line_cooling_OK)

text \<open>
  C6 (as amended). In every EnvironmentSnapshot the fan and power-supply sequences are
  non-empty. A sequence is exactly the one-element sentinel sequence when the \<open>messages\<close> field
  is absent or empty, when the text has no header line of that section, or when no row of
  that section was parsed. When the text has no fan and no power-supply header and its last
  line matching the cooling-status pattern is \<open>System cooling status is: OK\<close>, the cooling
  status is \<open>OK\<close> and both sequences are the sentinel sequence.
\<close>

theorem sequences_never_empty_and_scenario:
  assumes "get_environment_info_from env_info = Inr snap"
  shows "Fan_Status snap \<noteq> [] \<and> Power_Supply_Status snap \<noteq> []
    \<and> (messages env_info = None \<or> messages env_info = Some []
         \<longrightarrow> Fan_Status snap = [''N/A''] \<and> Power_Supply_Status snap = [''N/A''])
    \<and> (messages env_info = Some (text # others) \<longrightarrow>
         (fan_status_list (parse_lines (splitlines text)) = [] \<longrightarrow> Fan_Status snap = [''N/A''])
       \<and> (power_supply_status_list (parse_lines (splitlines text)) = []
            \<longrightarrow> Power_Supply_Status snap = [''N/A''])
       \<and> (list_all (\<lambda>l. \<not> fan_header (strip l)) (splitlines text)
            \<longrightarrow> Fan_Status snap = [''N/A''])
       \<and> (list_all (\<lambda>l. \<not> power_header (strip l)) (splitlines text)
            \<longrightarrow> Power_Supply_Status snap = [''N/A''])
       \<and> (splitlines text = before @ l # after \<and> strip l = ''System cooling status is: OK''
           \<and> list_all (\<lambda>l'. cooling_match (strip l') = None) after
           \<and> list_all (\<lambda>l. \<not> fan_header (strip l)) (splitlines text)
           \<and> list_all (\<lambda>l. \<not> power_header (strip l)) (splitlines text)
          \<longrightarrow> Cooling_Status snap = ''OK'' \<and> Fan_Status snap = [''N/A'']
              \<and> Power_Supply_Status snap = [''N/A'']))"
proof (intro conjI impI)
  show "Fan_Status snap \<noteq> []" "Power_Supply_Status snap \<noteq> []"
    using assms
    by (auto simp: get_environment_info_from_cases sentinel_snapshot_def snapshot_of_nonempty
        split: option.splits list.splits)
next
  assume "messages env_info = None \<or> messages env_info = Some []"
  with assms have "snap = sentinel_snapshot"
    by (auto simp: get_environment_info_from_cases)
  then show "Fan_Status snap = [''N/A'']" "Power_Supply_Status snap = [''N/A'']"
    by (simp_all add: sentinel_snapshot_def)
next
  assume "messages env_info = Some (text # others)"
  with assms have snap: "snap = snapshot_of (parse_lines (splitlines text))"
    by (simp add: get_environment_info_from_cases)
  show "Fan_Status snap = [''N/A'']" if "fan_status_list (parse_lines (splitlines text)) = []"
    using that by (simp add: snap snapshot_of_sentinel)
  show "Power_Supply_Status snap = [''N/A'']"
    if "power_supply_status_list (parse_lines (splitlines text)) = []"
    using that by (simp add: snap snapshot_of_sentinel)
  show "Fan_Status snap = [''N/A'']" if "list_all (\<lambda>l. \<not> fan_header (strip l)) (splitlines text)"
    using that by (simp add: snap snapshot_of_sentinel parse_lines_no_fan)
  show "Power_Supply_Status snap = [''N/A'']"
    if "list_all (\<lambda>l. \<not> power_header (strip l)) (splitlines text)"
    using that by (simp add: snap snapshot_of_sentinel parse_lines_no_power)
  assume scenario: "splitlines text = before @ l # after \<and> strip l = ''System cooling status is: OK''
           \<and> list_all (\<lambda>l'. cooling_match (strip l') = None) after
           \<and> list_all (\<lambda>l. \<not> fan_header (strip l)) (splitlines text)
           \<and> list_all (\<lambda>l. \<not> power_header (strip l)) (splitlines text)"
  then have "cooling_status (parse_lines (splitlines text)) = ''OK''"
    by (intro parse_lines_last_cooling_OK [of _ before l after]) simp_all
  then show "Cooling_Status snap = ''OK''"
    by (simp add: snap snapshot_of_def)
  from scenario have "fan_status_list (parse_lines (splitlines text)) = []"
    by (intro parse_lines_no_fan) blast
  then show "Fan_Status snap = [''N/A'']"
    by (simp add: snap snapshot_of_sentinel)
  from scenario have "power_supply_status_list (parse_lines (splitlines text)) = []"
    by (intro parse_lines_no_power) blast
  then show "Power_Supply_Status snap = [''N/A'']"
    by (simp add: snap snapshot_of_sentinel)
qed


theorem sequences_never_empty_and_scenario_witness:
  "get_environment_info_from
       \<lparr>interfaces = None, interfaceErrorCounters = None,
        messages = Some [''System cooling status is: OK'' @ [CHR 0x0A] @ ''Ambient temperature: 23C''],
        fqdn = None\<rparr>
     = Inr \<lparr>Cooling_Status = ''OK'', Ambient_Temperature = ''23C'', Fan_Status = [''N/A''],
            Power_Supply_Status = [''N/A'']\<rparr>
   \<and> splitlines (''System cooling status is: OK'' @ [CHR 0x0A] @ ''Ambient temperature: 23C'')
     = [] @ ''System cooling status is: OK'' # [''Ambient temperature: 23C'']
   \<and> strip ''System cooling status is: OK'' = ''System cooling status is: OK''
   \<and> list_all (\<lambda>l'. cooling_match (strip l') = None) [''Ambient temperature: 23C'']
   \<and> list_all (\<lambda>l. \<not> fan_header (strip l))
        (splitlines (''System cooling status is: OK'' @ [CHR 0x0A] @ ''Ambient temperature: 23C''))
   \<and> list_all (\<lambda>l. \<not> power_header (strip l))
        (splitlines (''System cooling status is: OK'' @ [CHR 0x0A] @ ''Ambient temperature: 23C''))"
proof -
  let ?text = "''System cooling status is: OK'' @ [CHR 0x0A] @ ''Ambient temperature: 23C''"
  let ?env = "\<lparr>interfaces = None, interfaceErrorCounters = None, messages = Some [?text], fqdn = None\<rparr>"
  have lines: "splitlines ?text = [] @ ''System cooling status is: OK'' # [''Ambient temperature: 23C'']"
    by (simp add: splitlines_def is_linebreak_def)
  have s: "strip ''System cooling status is: OK'' = ''System cooling status is: OK''"
    "strip ''Ambient temperature: 23C'' = ''Ambient temperature: 23C''"
    by (simp_all add: strip_def is_space_def)
  have after: "list_all (\<lambda>l'. cooling_match (strip l') = None) [''Ambient temperature: 23C'']"
    by (simp add: s cooling_match_def re_lit_def)
  have nofan: "list_all (\<lambda>l. \<not> fan_header (strip l)) (splitlines ?text)"
    unfolding lines by (simp add: s fan_header_def)
  have nopower: "list_all (\<lambda>l. \<not> power_header (strip l)) (splitlines ?text)"
    unfolding lines by (simp add: s power_header_def)
  have temp: "ambient_temperature (parse_lines (splitlines ?text)) = ''23C''"
    unfolding lines
    by (simp add: parse_lines_def process_line_def s cooling_match_OK cooling_match_def
        temp_match_def re_lit_def re_plus_def is_space_def is_digit_def)
  obtain snap where run: "get_environment_info_from ?env = Inr snap"
    and snap: "snap = snapshot_of (parse_lines (splitlines ?text))"
    by (simp add: get_environment_info_from_cases)
  from sequences_never_empty_and_scenario [OF run, of ?text "[]" "[]" "''System cooling status is: OK''" "[''Ambient temperature: 23C'']"]
    lines s(1) after nofan nopower
  have "Cooling_Status snap = ''OK'' \<and> Fan_Status snap = [''N/A'']
      \<and> Power_Supply_Status snap = [''N/A'']"
    by simp
  moreover have "Ambient_Temperature snap = ''23C''"
    using temp by (simp add: snap snapshot_of_def)
  ultimately have "snap = \<lparr>Cooling_Status = ''OK'', Ambient_Temperature = ''23C'',
      Fan_Status = [''N/A''], Power_Supply_Status = [''N/A'']\<rparr>"
    by (cases snap) simp
  with run lines s(1) after nofan nopower show ?thesis
    by blast
qed

text \<open>
  The scenario as first stated fails when a later line matches the cooling-status pattern: the
  text contains the line \<open>System cooling status is: OK\<close> and no section header, and the
  cooling status of the snapshot is \<open>Failed\<close>.
\<close>

theorem cooling_status_last_line_wins_counterexample:
  "splitlines (''System cooling status is: OK'' @ [CHR 0x0A] @ ''System cooling status is: Failed'')
     = [''System cooling status is: OK'', ''System cooling status is: Failed'']
   \<and> \<not> fan_header (strip ''System cooling status is: OK'')
   \<and> \<not> power_header (strip ''System cooling status is: OK'')
   \<and> \<not> fan_header (strip ''System cooling status is: Failed'')
   \<and> \<not> power_header (strip ''System cooling status is: Failed'')
   \<and> get_environment_info_from
       \<lparr>interfaces = None, interfaceErrorCounters = None,
        messages = Some [''System cooling status is: OK'' @ [CHR 0x0A]
                         @ ''System cooling status is: Failed''],
        fqdn = None\<rparr>
     = Inr \<lparr>Cooling_Status = ''Failed'', Ambient_Temperature = ''N/A'', Fan_Status = [''N/A''],
            Power_Supply_Status = [''N/A'']\<rparr>"
proof -
  let ?text = "''System cooling status is: OK'' @ [CHR 0x0A] @ ''System cooling status is: Failed''"
  have lines: "splitlines ?text = [''System cooling status is: OK'', ''System cooling status is: Failed'']"
    by (simp add: splitlines_def is_linebreak_def)
  have s: "strip ''System cooling status is: OK'' = ''System cooling status is: OK''"
    "strip ''System cooling status is: Failed'' = ''System cooling status is: Failed''"
    by (simp_all add: strip_def is_space_def)
  have hdr: "\<not> fan_header (strip ''System cooling status is: OK'')"
    "\<not> power_header (strip ''System cooling status is: OK'')"
    "\<not> fan_header (strip ''System cooling status is: Failed'')"
    "\<not> power_header (strip ''System cooling status is: Failed'')"
    by (simp_all add: s fan_header_def power_header_def)
  have failed: "cooling_match ''System cooling status is: Failed'' = Some ''Failed''"
    by (simp add: cooling_match_def re_lit_def re_plus_def is_space_def is_word_def)
  have "parse_lines (splitlines ?text) = initial_state\<lparr>cooling_status := ''Failed''\<rparr>"
    unfolding lines by (simp add: parse_lines_def process_line_def s cooling_match_OK failed)
  then have "get_environment_info_from
       \<lparr>interfaces = None, interfaceErrorCounters = None, messages = Some [?text], fqdn = None\<rparr>
     = Inr \<lparr>Cooling_Status = ''Failed'', Ambient_Temperature = ''N/A'', Fan_Status = [''N/A''],
            Power_Supply_Status = [''N/A'']\<rparr>"
    by (simp add: get_environment_info_from_cases snapshot_of_def initial_state_def)
  with lines hdr show ?thesis
    by blast
qed

lemma dash_line_matches:
  "cooling_match (CHR ''-'' # rest) = None"
  "temp_match (CHR ''-'' # rest) = None"
  "airflow_match (CHR ''-'' # rest) = None"
  "\<not> fan_header (CHR ''-'' # rest)"
  "\<not> power_header (CHR ''-'' # rest)"
  "separator_match (CHR ''-'' # rest)"
  by (simp_all add: cooling_match_def temp_match_def airflow_match_def fan_header_def
      power_header_def separator_match_def re_lit_def re_plus_def)

lemma separator_match_iff:
  "separator_match line \<longleftrightarrow> (\<exists>c rest. line = c # rest \<and> (c = CHR ''-'' \<or> is_space c))"
  by (cases line) (auto simp: separator_match_def re_plus_def)

text \<open>
  C10. A line whose stripped text starts with a dash is skipped entirely: the parser state
  is unchanged, whatever the rest of the line is. The separator test matches a leading run
  of dashes and white space, so it accepts every non-empty line made only of dashes and
  white space, and also lines that are not of this form, among them lines that match the
  fan row pattern and lines that match the power-supply row pattern.
\<close>

theorem dash_line_skipped:
  "(strip raw = CHR ''-'' # rest \<longrightarrow> process_line st raw = st)
   \<and> (line \<noteq> [] \<and> only_dashes_and_space line \<longrightarrow> separator_match line)
   \<and> (\<exists>line. separator_match line \<and> \<not> only_dashes_and_space line \<and> fan_match line \<noteq> None)
   \<and> (\<exists>line. separator_match line \<and> \<not> only_dashes_and_space line \<and> power_match line \<noteq> None)"
proof (intro conjI impI)
  assume "strip raw = CHR ''-'' # rest"
  then show "process_line st raw = st"
    by (simp add: process_line_def dash_line_matches)
next
  assume "line \<noteq> [] \<and> only_dashes_and_space line"
  then show "separator_match line"
    by (cases line) (auto simp: separator_match_iff only_dashes_and_space_def)
next
  have "separator_match ''-Fan1 Ok 30% 30%''"
    by (simp add: dash_line_matches)
  moreover have "\<not> only_dashes_and_space ''-Fan1 Ok 30% 30%''"
    by (simp add: only_dashes_and_space_def is_space_def)
  moreover have "fan_match ''-Fan1 Ok 30% 30%'' = Some (''-Fan1'', ''Ok'', ''30'', ''30'')"
    by (simp add: fan_match_def re_lit_def re_plus_def is_space_def is_word_def is_digit_def)
  ultimately show "\<exists>line. separator_match line \<and> \<not> only_dashes_and_space line \<and> fan_match line \<noteq> None"
    by (intro exI [of _ "''-Fan1 Ok 30% 30%''"]) simp
next
  let ?row = "''-1 PWR-500AC-R 500W 0.26A 3.84A 46.5W Ok''"
  have "separator_match ?row"
    by (simp add: dash_line_matches)
  moreover have "\<not> only_dashes_and_space ?row"
    by (simp add: only_dashes_and_space_def is_space_def)
  moreover have "power_match ?row
      = Some (''-1'', ''PWR-500AC-R'', ''500W'', ''0.26A'', ''3.84A'', ''46.5W'', ''Ok'')"
    by (simp add: power_match_def re_lit_def re_plus_def is_space_def is_word_def is_digit_def)
  ultimately show "\<exists>line. separator_match line \<and> \<not> only_dashes_and_space line \<and> power_match line \<noteq> None"
    by (intro exI [of _ ?row]) simp
qed

theorem dash_line_skipped_witness:
  "strip ''  -Fan1 Ok 30% 30%'' = CHR ''-'' # ''Fan1 Ok 30% 30%''
   \<and> fan_match ''-Fan1 Ok 30% 30%'' = Some (''-Fan1'', ''Ok'', ''30'', ''30'')
   \<and> fan_match ''Fan1 Ok 30% 30%'' = Some (''Fan1'', ''Ok'', ''30'', ''30'')
   \<and> process_line (initial_state\<lparr>parsing_fan := True\<rparr>) ''  -Fan1 Ok 30% 30%''
       = initial_state\<lparr>parsing_fan := True\<rparr>
   \<and> fan_status_list (process_line (initial_state\<lparr>parsing_fan := True\<rparr>) ''  Fan1 Ok 30% 30%'')
       = [''<strong>Fan1 Status:</strong> Ok, <strong>Configured Speed:</strong> 30%, <strong>Actual Speed:</strong> 30%'']"
proof -
  have s: "strip ''  -Fan1 Ok 30% 30%'' = CHR ''-'' # ''Fan1 Ok 30% 30%''"
    by (simp add: strip_def is_space_def)
  have f1: "fan_match ''-Fan1 Ok 30% 30%'' = Some (''-Fan1'', ''Ok'', ''30'', ''30'')"
    by (simp add: fan_match_def re_lit_def re_plus_def is_space_def is_word_def is_digit_def)
  have f2: "fan_match ''Fan1 Ok 30% 30%'' = Some (''Fan1'', ''Ok'', ''30'', ''30'')"
    by (simp add: fan_match_def re_lit_def re_plus_def is_space_def is_word_def is_digit_def)
  have s2: "strip ''  Fan1 Ok 30% 30%'' = ''Fan1 Ok 30% 30%''"
    by (simp add: strip_def is_space_def)
  have nohdr: "\<not> fan_header ''Fan1 Ok 30% 30%''" "\<not> power_header ''Fan1 Ok 30% 30%''"
    by (simp_all add: fan_header_def power_header_def sublist_code(3))
  have row: "fan_status_list (process_line (initial_state\<lparr>parsing_fan := True\<rparr>) ''  Fan1 Ok 30% 30%'')
       = [''<strong>Fan1 Status:</strong> Ok, <strong>Configured Speed:</strong> 30%, <strong>Actual Speed:</strong> 30%'']"
    unfolding process_line_def s2 Let_def
    by (simp add: f2 nohdr cooling_match_def temp_match_def airflow_match_def
        separator_match_def re_lit_def re_plus_def is_space_def
        initial_state_def fan_entry_def replace_Ethernet.simps)
  from dash_line_skipped [of "''  -Fan1 Ok 30% 30%''" "''Fan1 Ok 30% 30%''" "initial_state\<lparr>parsing_fan := True\<rparr>"] s
  have "process_line (initial_state\<lparr>parsing_fan := True\<rparr>) ''  -Fan1 Ok 30% 30%''
       = initial_state\<lparr>parsing_fan := True\<rparr>"
    by blast
  with s f1 f2 row show ?thesis
    by blast
qed

subsection \<open>Error propagation\<close>

lemma fetch_error_report_document:
  "fetch_error post = Some e \<Longrightarrow> report_document max_str_digits post stamp render = Inl e"
  by (auto simp: fetch_error_def report_document_def result_bind_def split: sum.splits)

lemma main_on_error:
  assumes "report_document max_str_digits post stamp render = Inl e"
  shows "main max_str_digits post stamp render w = w\<lparr>stdout := stdout w @ [''Error generating report: '' @ str_exn e]\<rparr>"
  using assms by (simp add: main_def generate_html_report_def)

lemma environment_from_not_Inl: "get_environment_info_from env_info \<noteq> Inl e"
  by (simp add: get_environment_info_from_cases split: option.splits list.splits)

lemma switch_info_fails_iff:
  "(\<exists>e. get_switch_info post = Inl e) \<longleftrightarrow> command_fails post [''show version'', ''show hostname'']"
  by (auto simp: get_switch_info_def result_bind_def command_fails_def malformed_reply_def
      result_item_def getitem_def split: sum.splits option.splits list.splits)

lemma environment_info_fails_iff:
  "(\<exists>e. get_environment_info post = Inl e) \<longleftrightarrow> command_fails post [''show environment all'']"
  by (auto simp: environment_from_not_Inl get_environment_info_def result_bind_def command_fails_def malformed_reply_def
      result_item_def getitem_def split: sum.splits option.splits list.splits)

lemma interface_counters_fails_iff:
  "(\<exists>e. get_interface_counters post = Inl e) \<longleftrightarrow>
     command_fails post [''show interfaces counters rates'']
   \<or> command_fails post [''show interfaces counters errors'']"
proof (cases "execute_command post [''show interfaces counters rates'']")
  case (Inl e)
  then show ?thesis
    by (simp add: get_interface_counters_def result_bind_def command_fails_def)
next
  case rates: (Inr rr)
  show ?thesis
  proof (cases "execute_command post [''show interfaces counters errors'']")
    case (Inl e)
    then show ?thesis
      by (simp add: get_interface_counters_def result_bind_def command_fails_def rates)
  next
    case errors: (Inr re)
    show ?thesis
      by (simp add: get_interface_counters_def result_bind_def command_fails_def rates errors
          malformed_reply_def result_item_def getitem_def getkey_def
          split: option.splits list.splits)
  qed
qed

lemma fetch_error_iff:
  "fetch_error post \<noteq> None \<longleftrightarrow> list_ex (command_fails post) commands_sent"
proof -
  have "fetch_error post \<noteq> None \<longleftrightarrow>
      (\<exists>e. get_switch_info post = Inl e) \<or> (\<exists>e. get_interface_counters post = Inl e)
      \<or> (\<exists>e. get_environment_info post = Inl e)"
    by (auto simp: fetch_error_def split: sum.splits)
  then show ?thesis
    by (simp add: switch_info_fails_iff interface_counters_fails_iff environment_info_fails_iff
        commands_sent_def)
qed


text \<open>
  C9 (as amended). When fetching or reading a reply raises, nothing in the pipeline catches
  the exception: it reaches \<open>main\<close>, which prints \<open>Error generating report:\<close> followed by the
  message of that very exception and returns; no report file is written, and the process ends
  with exit status 0. Fetching raises exactly when, for one of the four command batches, the
  executor raises (the transport fails) or the reply lacks a field or element the program
  indexes (the response is malformed).
\<close>

theorem error_reported_no_file_exit_zero:
  "(fetch_error post = Some e \<longrightarrow>
      run_script max_str_digits post stamp render w
        = (0, w\<lparr>stdout := stdout w @ [''Error generating report: '' @ str_exn e]\<rparr>))
   \<and> (fetch_error post \<noteq> None \<longleftrightarrow> list_ex (command_fails post) commands_sent)"
proof (intro conjI impI)
  assume "fetch_error post = Some e"
  then have "report_document max_str_digits post stamp render = Inl e"
    by (rule fetch_error_report_document)
  then show "run_script max_str_digits post stamp render w
        = (0, w\<lparr>stdout := stdout w @ [''Error generating report: '' @ str_exn e]\<rparr>)"
    by (simp add: run_script_def main_on_error)
next
  show "fetch_error post \<noteq> None \<longleftrightarrow> list_ex (command_fails post) commands_sent"
    by (rule fetch_error_iff)
qed

theorem error_reported_no_file_exit_zero_witness:
  "command_fails (\<lambda>cmds. Timeout) [''show version'', ''show hostname'']
   \<and> fetch_error (\<lambda>cmds. Timeout)
       = Some (Exception ''Connection timed out while trying to reach the switch.'')
   \<and> run_script 4300 (\<lambda>cmds. Timeout) ''2024-01-02-03-04'' (\<lambda>info env ports data. ''<html>'')
        \<lparr>files = [], stdout = []\<rparr>
       = (0, \<lparr>files = [], stdout = [''Error generating report: Connection timed out while trying to reach the switch.'']\<rparr>)"
proof -
  let ?post = "\<lambda>cmds :: string list. Timeout"
  let ?e = "Exception ''Connection timed out while trying to reach the switch.''"
  have fails: "command_fails ?post [''show version'', ''show hostname'']"
    by (simp add: command_fails_def execute_command_def)
  have fetch: "fetch_error ?post = Some ?e"
    by (simp add: fetch_error_def get_switch_info_def result_bind_def execute_command_def)
  from error_reported_no_file_exit_zero [of ?post ?e 4300 "''2024-01-02-03-04''"
      "\<lambda>info env ports data. ''<html>''" "\<lparr>files = [], stdout = []\<rparr>"] fetch
  have "run_script 4300 ?post ''2024-01-02-03-04'' (\<lambda>info env ports data. ''<html>'')
        \<lparr>files = [], stdout = []\<rparr>
       = (0, \<lparr>files = [], stdout = [''Error generating report: Connection timed out while trying to reach the switch.'']\<rparr>)"
    by simp
  with fails fetch show ?thesis
    by blast
qed

text \<open>
  The claim as first stated fails in the exit status: with a transport that refuses the
  connection the message is printed and no file is written, but the status is 0.
\<close>

theorem exit_status_zero_on_error_counterexample:
  "execute_command (\<lambda>cmds. RequestException ''connection refused'') [''show version'', ''show hostname'']
       = Inl (Exception ''Network error: connection refused'')
   \<and> run_script 4300 (\<lambda>cmds. RequestException ''connection refused'') ''2024-01-02-03-04''
        (\<lambda>info env ports data. ''<html>'') \<lparr>files = [], stdout = []\<rparr>
       = (0, \<lparr>files = [], stdout = [''Error generating report: Network error: connection refused'']\<rparr>)"
  by (simp add: run_script_def main_def generate_html_report_def report_document_def
      get_switch_info_def result_bind_def execute_command_def)

end

